theory Spec2Isabelle
  imports Main
begin

section \<open>Shared helpers\<close>

text \<open>
  A table is the list of its rows in rowid order. An SQL
  \<^verbatim>\<open>UPDATE t SET ... WHERE cond\<close> rewrites every row that satisfies the condition and
  leaves the others as they are.
\<close>

definition sql_update :: "('r \<Rightarrow> bool) \<Rightarrow> ('r \<Rightarrow> 'r) \<Rightarrow> 'r list \<Rightarrow> 'r list" where
  "sql_update cond upd rows = map (\<lambda>r. if cond r then upd r else r) rows"

text \<open>
  \<^verbatim>\<open>ORDER BY created_at ASC LIMIT 1\<close>: the row with the least key; among rows with
  equal keys the one that comes first in the table.
\<close>

fun first_by :: "('r \<Rightarrow> int) \<Rightarrow> 'r list \<Rightarrow> 'r option" where
  "first_by key [] = None"
| "first_by key (r # rs) =
     (case first_by key rs of
        None \<Rightarrow> Some r
      | Some r' \<Rightarrow> if key r \<le> key r' then Some r else Some r')"

text \<open>Python's \<^verbatim>\<open>str(n)\<close> for an integer, used in the reclaim note.\<close>

fun str_nat :: "nat \<Rightarrow> string" where
  "str_nat n =
     (if n < 10 then [char_of (48 + n)]
      else str_nat (n div 10) @ [char_of (48 + n mod 10)])"

declare str_nat.simps [simp del]

definition str_int :: "int \<Rightarrow> string" where
  "str_int i = (if i < 0 then CHR ''-'' # str_nat (nat (- i)) else str_nat (nat i))"

section \<open>shared/queue\_store.py: the upload queue\<close>

text \<open>
  The dataclass \<^verbatim>\<open>Job\<close>, one row of the table \<^verbatim>\<open>jobs\<close>. The column \<^verbatim>\<open>id\<close> is called
  \<open>ident\<close> here; \<^verbatim>\<open>payload_json\<close> holds the serialised payload. Columns that may be NULL
  are options. Timestamps are the integers that \<^verbatim>\<open>_now_ts()\<close> returns; every operation
  takes the reading of the clock as its first argument \<open>ts\<close>. SQLite's INTEGER has 64
  bits; the counters and timestamps here stay far below that, and \<open>int\<close> is used.

  Every operation of the store is one \<^verbatim>\<open>BEGIN IMMEDIATE\<close> transaction or one single
  statement, so what several workers do to one database is a sequence of whole operations:
  a function from table to table for each operation, and \<open>run_queue\<close> for a sequence.
\<close>

record job =
  ident :: string
  obra_nome :: string
  pasta :: string
  payload_json :: string
  status :: string
  tries :: int
  last_error :: "string option"
  created_at :: int
  updated_at :: int
  available_at :: "int option"
  processing_started_at :: "int option"
  worker_id :: "string option"
  heartbeat_at :: "int option"

type_synonym queue_store = "job list"

definition compute_backoff_seconds :: "int \<Rightarrow> int" where
  "compute_backoff_seconds n = min (60 * 2 ^ nat (max 0 (n - 1))) 3600"

definition get_job :: "queue_store \<Rightarrow> string \<Rightarrow> job option" where
  "get_job s jid = find (\<lambda>r. ident r = jid) s"

definition enqueue :: "int \<Rightarrow> string \<Rightarrow> string \<Rightarrow> string \<Rightarrow> string \<Rightarrow> queue_store \<Rightarrow> queue_store" where
  "enqueue ts jid obra folder payload s =
     (case get_job s jid of
        Some row \<Rightarrow>
          if status row = ''done'' then s
          else sql_update (\<lambda>r. ident r = jid)
                 (\<lambda>r. r\<lparr>obra_nome := obra, pasta := folder, payload_json := payload,
                         status := ''queued'', updated_at := ts, available_at := None\<rparr>) s
      | None \<Rightarrow>
          s @ [\<lparr>ident = jid, obra_nome = obra, pasta = folder, payload_json = payload,
                status = ''queued'', tries = 0, last_error = None,
                created_at = ts, updated_at = ts, available_at = None,
                processing_started_at = None, worker_id = None, heartbeat_at = None\<rparr>])"

definition reclaim_note :: "int \<Rightarrow> string" where
  "reclaim_note now =
     [char_of (10::nat)] @ ''[reclaim] processing '' @ [char_of (195::nat), char_of (179::nat)] @ ''rf''
       @ [char_of (195::nat), char_of (163::nat)] @ ''o em '' @ str_int now"

definition stale_processing :: "int \<Rightarrow> job \<Rightarrow> bool" where
  "stale_processing cutoff r \<longleftrightarrow>
     status r = ''processing'' \<and>
     (case heartbeat_at r of None \<Rightarrow> True | Some h \<Rightarrow> h < cutoff)"

text \<open>
  \<^verbatim>\<open>reclaim_stale_processing\<close> selects the stale rows first and then updates each of them
  by id; the result is the number of selected rows and the new table.
\<close>

definition reclaim_row :: "int \<Rightarrow> job \<Rightarrow> job" where
  "reclaim_row now r =
     r\<lparr>status := ''queued'', worker_id := None, processing_started_at := None,
       heartbeat_at := None, available_at := Some (now + 30), updated_at := now,
       last_error := Some ((case last_error r of None \<Rightarrow> [] | Some e \<Rightarrow> e) @ reclaim_note now)\<rparr>"

definition reclaim_stale_processing :: "int \<Rightarrow> int \<Rightarrow> queue_store \<Rightarrow> nat \<times> queue_store" where
  "reclaim_stale_processing now timeout_seconds s =
     (let cutoff = now - timeout_seconds;
          rows = filter (stale_processing cutoff) s
      in (length rows,
          fold (\<lambda>row. sql_update (\<lambda>r. ident r = ident row) (reclaim_row now)) rows s))"

definition claimable :: "int \<Rightarrow> job \<Rightarrow> bool" where
  "claimable ts r \<longleftrightarrow>
     status r = ''queued'' \<and> (case available_at r of None \<Rightarrow> True | Some a \<Rightarrow> a \<le> ts)"

definition claim_row :: "int \<Rightarrow> string \<Rightarrow> job \<Rightarrow> job" where
  "claim_row ts wid r =
     r\<lparr>status := ''processing'', updated_at := ts, processing_started_at := Some ts,
       worker_id := Some wid, heartbeat_at := Some ts\<rparr>"

text \<open>
  \<^verbatim>\<open>claim_next\<close>: the caller passes the worker id (a fresh uuid when it has none). The
  result is the row read back by id after the update, and the new table.
\<close>

definition claim_next :: "int \<Rightarrow> string \<Rightarrow> queue_store \<Rightarrow> job option \<times> queue_store" where
  "claim_next ts wid s =
     (case first_by created_at (filter (claimable ts) s) of
        None \<Rightarrow> (None, s)
      | Some row \<Rightarrow>
          (let s' = sql_update (\<lambda>r. ident r = ident row) (claim_row ts wid) s
           in (get_job s' (ident row), s')))"

definition heartbeat :: "int \<Rightarrow> string \<Rightarrow> string \<Rightarrow> queue_store \<Rightarrow> queue_store" where
  "heartbeat ts jid wid s =
     sql_update (\<lambda>r. ident r = jid \<and> worker_id r = Some wid \<and> status r = ''processing'')
       (\<lambda>r. r\<lparr>heartbeat_at := Some ts, updated_at := ts\<rparr>) s"

definition mark_done :: "int \<Rightarrow> string \<Rightarrow> queue_store \<Rightarrow> queue_store" where
  "mark_done ts jid s =
     sql_update (\<lambda>r. ident r = jid)
       (\<lambda>r. r\<lparr>status := ''done'', updated_at := ts, worker_id := None,
               heartbeat_at := None, processing_started_at := None\<rparr>) s"

definition mark_failed ::
  "int \<Rightarrow> string \<Rightarrow> string \<Rightarrow> bool \<Rightarrow> int \<Rightarrow> queue_store \<Rightarrow> (int \<times> string) \<times> queue_store" where
  "mark_failed ts jid err requeue max_tries s =
     (let n = (case get_job s jid of Some row \<Rightarrow> tries row | None \<Rightarrow> 0) + 1;
          retry = (requeue \<and> n < max_tries);
          st = (if retry then ''queued'' else ''failed'');
          av = (if retry then Some (ts + compute_backoff_seconds n) else None)
      in ((n, st),
          sql_update (\<lambda>r. ident r = jid)
            (\<lambda>r. r\<lparr>tries := n, last_error := Some err, status := st, available_at := av,
                    updated_at := ts, worker_id := None, heartbeat_at := None,
                    processing_started_at := None\<rparr>) s))"

text \<open>
  The operations of a worker on the store, for statements about every sequence of
  operations. \<open>run_queue\<close> applies a sequence from left to right.
\<close>

datatype queue_op =
    Enqueue int string string string string
  | ReclaimStaleProcessing int int
  | ClaimNext int string
  | Heartbeat int string string
  | MarkDone int string
  | MarkFailed int string string bool int

fun queue_step :: "queue_op \<Rightarrow> queue_store \<Rightarrow> queue_store" where
  "queue_step (Enqueue ts jid obra folder payload) s = enqueue ts jid obra folder payload s"
| "queue_step (ReclaimStaleProcessing now t) s = snd (reclaim_stale_processing now t s)"
| "queue_step (ClaimNext ts wid) s = snd (claim_next ts wid s)"
| "queue_step (Heartbeat ts jid wid) s = heartbeat ts jid wid s"
| "queue_step (MarkDone ts jid) s = mark_done ts jid s"
| "queue_step (MarkFailed ts jid err requeue max_tries) s =
     snd (mark_failed ts jid err requeue max_tries s)"

definition run_queue :: "queue_op list \<Rightarrow> queue_store \<Rightarrow> queue_store" where
  "run_queue ops s = fold queue_step ops s"

section \<open>shared/download\_store.py: the download queue\<close>

text \<open>
  The dataclass \<^verbatim>\<open>DownloadJob\<close>, one row of \<^verbatim>\<open>download_jobs\<close>; the fields carry the
  prefix \<open>d_\<close> and the operations the prefix \<open>dl_\<close>, since both stores use the same
  names. Every column is NOT NULL here: an unset owner is the empty string and an unset
  timestamp is 0. A string is a list of bytes, so the cut of the error text at 2000
  characters is a cut at 2000 bytes.
\<close>

record download_job =
  d_id :: int
  d_job_id :: string
  d_url :: string
  d_nome :: string
  d_pasta :: string
  d_expected_total :: int
  d_batch_size :: int
  d_status :: string
  d_tries :: int
  d_available_at :: int
  d_last_error :: string
  d_result_json :: string
  d_summary_json :: string
  d_worker_id :: string
  d_processing_started_at :: int
  d_heartbeat_at :: int
  d_chapter :: int
  d_progress :: int
  d_total_images :: int
  d_state :: string
  d_created_at :: int
  d_updated_at :: int

type_synonym download_store = "download_job list"

definition dl_get_job_by_job_id :: "download_store \<Rightarrow> string \<Rightarrow> download_job option" where
  "dl_get_job_by_job_id s jid = find (\<lambda>r. d_job_id r = jid) s"

text \<open>The next value of the AUTOINCREMENT key: one more than the largest key in use.\<close>

definition next_id :: "download_store \<Rightarrow> int" where
  "next_id s = foldr max (map d_id s) 0 + 1"

text \<open>
  \<^verbatim>\<open>INSERT OR IGNORE\<close>: a row whose \<^verbatim>\<open>job_id\<close> is already in the table is not inserted
  and the table stays as it is. The caller passes the job id (a fresh uuid when it has
  none).
\<close>

definition dl_enqueue ::
  "int \<Rightarrow> string \<Rightarrow> string \<Rightarrow> string \<Rightarrow> int \<Rightarrow> int \<Rightarrow> string \<Rightarrow> download_store \<Rightarrow> download_store" where
  "dl_enqueue now url nome folder expected_total batch_size jid s =
     (case dl_get_job_by_job_id s jid of
        Some row \<Rightarrow> s
      | None \<Rightarrow>
          s @ [\<lparr>d_id = next_id s, d_job_id = jid, d_url = url, d_nome = nome, d_pasta = folder,
                d_expected_total = expected_total, d_batch_size = batch_size,
                d_status = ''queued'', d_tries = 0, d_available_at = now, d_last_error = [],
                d_result_json = [], d_summary_json = [], d_worker_id = [],
                d_processing_started_at = 0, d_heartbeat_at = 0, d_chapter = 0,
                d_progress = 0, d_total_images = 0, d_state = ''idle'',
                d_created_at = now, d_updated_at = now\<rparr>])"

definition dl_claimable :: "int \<Rightarrow> download_job \<Rightarrow> bool" where
  "dl_claimable now r \<longleftrightarrow> d_status r = ''queued'' \<and> d_available_at r \<le> now"

definition dl_claim_row :: "int \<Rightarrow> string \<Rightarrow> download_job \<Rightarrow> download_job" where
  "dl_claim_row now wid r =
     r\<lparr>d_status := ''downloading'', d_worker_id := wid, d_processing_started_at := now,
       d_heartbeat_at := now, d_state := ''starting'', d_updated_at := now\<rparr>"

text \<open>
  \<^verbatim>\<open>claim_next\<close> selects the key of the oldest due row and updates the row with that key
  if it is still queued; \<^verbatim>\<open>RETURNING *\<close> gives the updated row.
\<close>

definition dl_claim_next :: "int \<Rightarrow> string \<Rightarrow> download_store \<Rightarrow> download_job option \<times> download_store" where
  "dl_claim_next now wid s =
     (case first_by d_created_at (filter (dl_claimable now) s) of
        None \<Rightarrow> (None, s)
      | Some row \<Rightarrow>
          (let hit = (\<lambda>r. d_id r = d_id row \<and> d_status r = ''queued'')
           in (map_option (dl_claim_row now wid) (find hit s),
               sql_update hit (dl_claim_row now wid) s)))"

definition dl_active :: "download_job \<Rightarrow> bool" where
  "dl_active r \<longleftrightarrow> d_status r = ''downloading'' \<or> d_status r = ''validating''"

definition dl_heartbeat :: "int \<Rightarrow> string \<Rightarrow> int \<Rightarrow> int \<Rightarrow> int \<Rightarrow> string \<Rightarrow> download_store \<Rightarrow> download_store" where
  "dl_heartbeat now jid chapter progress total_images state s =
     sql_update (\<lambda>r. d_job_id r = jid \<and> dl_active r)
       (\<lambda>r. r\<lparr>d_heartbeat_at := now, d_chapter := chapter, d_progress := progress,
               d_total_images := total_images,
               d_state := (if state = [] then d_state r else state),
               d_updated_at := now\<rparr>) s"

definition dl_set_status :: "int \<Rightarrow> string \<Rightarrow> string \<Rightarrow> string \<Rightarrow> download_store \<Rightarrow> download_store" where
  "dl_set_status now jid st state s =
     sql_update (\<lambda>r. d_job_id r = jid)
       (\<lambda>r. r\<lparr>d_status := st, d_state := (if state = [] then d_state r else state),
               d_updated_at := now\<rparr>) s"

definition dl_mark_done :: "int \<Rightarrow> string \<Rightarrow> string \<Rightarrow> string \<Rightarrow> download_store \<Rightarrow> download_store" where
  "dl_mark_done now jid result summary s =
     sql_update (\<lambda>r. d_job_id r = jid)
       (\<lambda>r. r\<lparr>d_status := ''done'', d_state := ''completed'', d_result_json := result,
               d_summary_json := summary, d_updated_at := now\<rparr>) s"

definition dl_mark_failed :: "int \<Rightarrow> string \<Rightarrow> string \<Rightarrow> int \<Rightarrow> download_store \<Rightarrow> download_store" where
  "dl_mark_failed now jid err next_available_at s =
     sql_update (\<lambda>r. d_job_id r = jid)
       (\<lambda>r. r\<lparr>d_status := ''queued'', d_tries := d_tries r + 1, d_last_error := take 2000 err,
               d_available_at := next_available_at, d_state := ''error'',
               d_updated_at := now\<rparr>) s"

definition dl_fail_permanently :: "int \<Rightarrow> string \<Rightarrow> string \<Rightarrow> download_store \<Rightarrow> download_store" where
  "dl_fail_permanently now jid err s =
     sql_update (\<lambda>r. d_job_id r = jid)
       (\<lambda>r. r\<lparr>d_status := ''failed'', d_tries := d_tries r + 1, d_last_error := take 2000 err,
               d_state := ''failed'', d_updated_at := now\<rparr>) s"

definition dl_stale :: "int \<Rightarrow> download_job \<Rightarrow> bool" where
  "dl_stale cutoff r \<longleftrightarrow> dl_active r \<and> d_heartbeat_at r > 0 \<and> d_heartbeat_at r < cutoff"

definition dl_reclaim_row :: "int \<Rightarrow> download_job \<Rightarrow> download_job" where
  "dl_reclaim_row now r =
     r\<lparr>d_status := ''queued'', d_worker_id := [], d_processing_started_at := 0,
       d_heartbeat_at := 0, d_state := ''reclaimed'', d_available_at := now + 5,
       d_updated_at := now\<rparr>"

definition dl_reclaim_stale_downloading :: "int \<Rightarrow> int \<Rightarrow> download_store \<Rightarrow> nat \<times> download_store" where
  "dl_reclaim_stale_downloading now timeout_seconds s =
     (let cutoff = now - timeout_seconds
      in (length (filter (dl_stale cutoff) s), sql_update (dl_stale cutoff) (dl_reclaim_row now) s))"

datatype download_op =
    DlEnqueue int string string string int int string
  | DlClaimNext int string
  | DlHeartbeat int string int int int string
  | DlSetStatus int string string string
  | DlMarkDone int string string string
  | DlMarkFailed int string string int
  | DlFailPermanently int string string
  | DlReclaimStaleDownloading int int

fun download_step :: "download_op \<Rightarrow> download_store \<Rightarrow> download_store" where
  "download_step (DlEnqueue now url nome folder et bs jid) s = dl_enqueue now url nome folder et bs jid s"
| "download_step (DlClaimNext now wid) s = snd (dl_claim_next now wid s)"
| "download_step (DlHeartbeat now jid c p t st) s = dl_heartbeat now jid c p t st s"
| "download_step (DlSetStatus now jid st state) s = dl_set_status now jid st state s"
| "download_step (DlMarkDone now jid res summ) s = dl_mark_done now jid res summ s"
| "download_step (DlMarkFailed now jid err nxt) s = dl_mark_failed now jid err nxt s"
| "download_step (DlFailPermanently now jid err) s = dl_fail_permanently now jid err s"
| "download_step (DlReclaimStaleDownloading now t) s = snd (dl_reclaim_stale_downloading now t s)"

definition run_download :: "download_op list \<Rightarrow> download_store \<Rightarrow> download_store" where
  "run_download ops s = fold download_step ops s"

text \<open>
  The schema's constraints on \<^verbatim>\<open>download_jobs\<close>: \<^verbatim>\<open>id\<close> is the primary key and
  \<^verbatim>\<open>job_id\<close> is UNIQUE. For \<^verbatim>\<open>jobs\<close> the primary key \<^verbatim>\<open>id\<close> is the only one, written
  \<open>distinct (map ident s)\<close>.
\<close>

definition wf_download_store :: "download_store \<Rightarrow> bool" where
  "wf_download_store s \<longleftrightarrow> distinct (map d_id s) \<and> distinct (map d_job_id s)"

section \<open>download/app.py: classification of a chapter\<close>

text \<open>
  Line 1179 of \<^verbatim>\<open>run_download_bot\<close>. The two thresholds \<^verbatim>\<open>MIN_IMAGES_PER_CHAPTER\<close> and
  \<^verbatim>\<open>MIN_IMAGES_PARTIAL\<close> are read from the environment (defaults 3 and 1), so they are
  parameters here; \<open>found_n\<close> is the length of the extracted list.
\<close>

definition classify :: "int \<Rightarrow> int \<Rightarrow> nat \<Rightarrow> string" where
  "classify min_images_per_chapter min_images_partial found_n =
     (if int found_n \<ge> min_images_per_chapter then ''ok''
      else if int found_n \<ge> min_images_partial then ''partial''
      else ''broken'')"

section \<open>Concrete stores\<close>

text \<open>Stores reached from the empty table by the operations themselves.\<close>

definition demo_job :: job where
  "demo_job = \<lparr>ident = ''j1'', obra_nome = ''obra'', pasta = ''/p'', payload_json = ''{}'',
     status = ''processing'', tries = 0, last_error = None, created_at = 10, updated_at = 11,
     available_at = None, processing_started_at = Some 11, worker_id = Some ''w1'',
     heartbeat_at = Some 11\<rparr>"

definition demo_store :: queue_store where
  "demo_store = run_queue [Enqueue 10 ''j1'' ''obra'' ''/p'' ''{}'', ClaimNext 11 ''w1''] []"

definition job1 :: job where
  "job1 = \<lparr>ident = ''j1'', obra_nome = ''obra'', pasta = ''/p'', payload_json = ''{}'',
     status = ''queued'', tries = 0, last_error = None, created_at = 10, updated_at = 10,
     available_at = None, processing_started_at = None, worker_id = None,
     heartbeat_at = None\<rparr>"

definition job2 :: job where
  "job2 = \<lparr>ident = ''j2'', obra_nome = ''outra'', pasta = ''/q'', payload_json = ''{}'',
     status = ''queued'', tries = 0, last_error = None, created_at = 12, updated_at = 12,
     available_at = None, processing_started_at = None, worker_id = None,
     heartbeat_at = None\<rparr>"

definition four_failures :: queue_store where
  "four_failures = run_queue [Enqueue 0 ''j1'' ''obra'' ''/p'' ''{}'',
     MarkFailed 10 ''j1'' ''e'' True 5, MarkFailed 20 ''j1'' ''e'' True 5,
     MarkFailed 30 ''j1'' ''e'' True 5, MarkFailed 40 ''j1'' ''e'' True 5] []"

definition demo_download_job :: download_job where
  "demo_download_job = \<lparr>d_id = 1, d_job_id = ''j1'', d_url = ''http://x/1'', d_nome = ''obra'',
     d_pasta = ''/p'', d_expected_total = 0, d_batch_size = 0, d_status = ''downloading'',
     d_tries = 0, d_available_at = 10, d_last_error = [], d_result_json = [],
     d_summary_json = [], d_worker_id = ''w1'', d_processing_started_at = 11,
     d_heartbeat_at = 11, d_chapter = 0, d_progress = 0, d_total_images = 0,
     d_state = ''starting'', d_created_at = 10, d_updated_at = 11\<rparr>"

definition demo_download_store :: download_store where
  "demo_download_store =
     run_download [DlEnqueue 10 ''http://x/1'' ''obra'' ''/p'' 0 0 ''j1'', DlClaimNext 11 ''w1''] []"

definition download1 :: download_job where
  "download1 = \<lparr>d_id = 1, d_job_id = ''j1'', d_url = ''http://x/1'', d_nome = ''obra'',
     d_pasta = ''/p'', d_expected_total = 0, d_batch_size = 0, d_status = ''queued'',
     d_tries = 0, d_available_at = 10, d_last_error = [], d_result_json = [],
     d_summary_json = [], d_worker_id = [], d_processing_started_at = 0,
     d_heartbeat_at = 0, d_chapter = 0, d_progress = 0, d_total_images = 0,
     d_state = ''idle'', d_created_at = 10, d_updated_at = 10\<rparr>"

definition download2 :: download_job where
  "download2 = \<lparr>d_id = 2, d_job_id = ''j2'', d_url = ''http://y/1'', d_nome = ''outra'',
     d_pasta = ''/q'', d_expected_total = 0, d_batch_size = 0, d_status = ''queued'',
     d_tries = 0, d_available_at = 12, d_last_error = [], d_result_json = [],
     d_summary_json = [], d_worker_id = [], d_processing_started_at = 0,
     d_heartbeat_at = 0, d_chapter = 0, d_progress = 0, d_total_images = 0,
     d_state = ''idle'', d_created_at = 12, d_updated_at = 12\<rparr>"

definition failed_download_store :: download_store where
  "failed_download_store =
     run_download [DlEnqueue 10 ''http://x/1'' ''obra'' ''/p'' 0 0 ''j1'', DlClaimNext 11 ''w1'',
                   DlFailPermanently 12 ''j1'' ''boom''] []"

text \<open>
  Worker A claims the job and stalls; another worker reclaims it; A then reports
  \<^verbatim>\<open>validating\<close> (line 2078 of download/app.py) and stops before \<^verbatim>\<open>mark_done\<close>.
\<close>

definition stuck_download_store :: download_store where
  "stuck_download_store =
     run_download [DlEnqueue 50 ''http://x/1'' ''obra'' ''/p'' 0 0 ''j1'', DlClaimNext 100 ''A'',
                   DlReclaimStaleDownloading 1000 600,
                   DlSetStatus 1001 ''j1'' ''validating'' ''validating''] []"

section \<open>download/app.py: download\_with\_retry\<close>

text \<open>
  The file system is a map from paths to file sizes. What the network and the file system
  do in one attempt is an input: the request or \<^verbatim>\<open>raise_for_status\<close> raises, the
  Content-Type is not an image, \<^verbatim>\<open>open\<close> of the temporary file raises, the stream raises
  after some chunks were written, or the body arrives as a list of chunk sizes and
  \<^verbatim>\<open>os.rename\<close> then works or raises. The second component of an attempt says whether
  \<^verbatim>\<open>os.remove\<close> of the temporary file raises in the handler, which the source swallows.
  The sleep between attempts and the log lines have no effect on the result.
\<close>

type_synonym fs = "string \<rightharpoonup> nat"


definition tmp_path :: "string \<Rightarrow> string" where
  "tmp_path filepath = filepath @ ''.tmp''"



text \<open>The \<^verbatim>\<open>except\<close> handler: remove the temporary file if it exists, ignoring a failure.\<close>

definition cleanup :: "string \<Rightarrow> bool \<Rightarrow> fs \<Rightarrow> fs" where
  "cleanup filepath remove_raises files =
     (if files (tmp_path filepath) \<noteq> None \<and> \<not> remove_raises
      then files(tmp_path filepath := None) else files)"







section \<open>download/app.py: normalize\_url\<close>

text \<open>
  \<^verbatim>\<open>normalize_url\<close> calls \<^verbatim>\<open>urlsplit\<close>, \<^verbatim>\<open>parse_qsl\<close>, \<^verbatim>\<open>urlencode\<close> and
  \<^verbatim>\<open>urlunsplit\<close> of Python's \<^verbatim>\<open>urllib.parse\<close>. They are modelled here as CPython 3.12.4
  and later define them (\<^verbatim>\<open>urlunsplit\<close> keeps a path that starts with two slashes apart
  from an authority). A string is the list of the bytes of its UTF-8 encoding. Three
  things the library computes with code of its own are parameters (\<open>urllib\<close>): whether
  an authority with brackets is rejected (the address between the brackets is checked),
  whether a non-ASCII authority is rejected after NFKC normalisation, and the decoding of
  percent escapes, which is only called on a string that contains a percent sign.
\<close>

record urllib =
  bad_bracketed_netloc :: "string \<Rightarrow> bool"
  bad_nfkc_netloc :: "string \<Rightarrow> bool"
  percent_decode :: "string \<Rightarrow> string"

datatype py_error = ValueError

record split_result =
  sr_scheme :: string
  sr_netloc :: string
  sr_path :: string
  sr_query :: string
  sr_fragment :: string

definition ascii_lowercase :: string where
  "ascii_lowercase = ''abcdefghijklmnopqrstuvwxyz''"

definition ascii_uppercase :: string where
  "ascii_uppercase = ''ABCDEFGHIJKLMNOPQRSTUVWXYZ''"

definition digits :: string where
  "digits = ''0123456789''"

definition scheme_chars :: string where
  "scheme_chars = ascii_lowercase @ ascii_uppercase @ digits @ ''+-.''"

definition is_ascii_alpha :: "char \<Rightarrow> bool" where
  "is_ascii_alpha c \<longleftrightarrow> c \<in> set (ascii_lowercase @ ascii_uppercase)"

text \<open>\<^verbatim>\<open>str.lower\<close>, on the ASCII letters.\<close>

definition lower_char :: "char \<Rightarrow> char" where
  "lower_char c = (case map_of (zip ascii_uppercase ascii_lowercase) c of Some l \<Rightarrow> l | None \<Rightarrow> c)"

definition lower :: "string \<Rightarrow> string" where
  "lower s = map lower_char s"

definition is_ascii :: "string \<Rightarrow> bool" where
  "is_ascii s \<longleftrightarrow> list_all (\<lambda>c. (of_char c :: nat) < 128) s"

text \<open>\<^verbatim>\<open>s.split(sep, 1)\<close>: the part before the first separator and the part after it.\<close>

definition before :: "char \<Rightarrow> string \<Rightarrow> string" where
  "before sep s = takeWhile (\<lambda>c. c \<noteq> sep) s"

definition after :: "char \<Rightarrow> string \<Rightarrow> string" where
  "after sep s = drop 1 (dropWhile (\<lambda>c. c \<noteq> sep) s)"

text \<open>\<^verbatim>\<open>s.split(sep)\<close>: all the parts, at least one.\<close>

fun split_on :: "char \<Rightarrow> string \<Rightarrow> string list" where
  "split_on sep [] = [[]]"
| "split_on sep (c # cs) =
     (if c = sep then [] # split_on sep cs
      else (case split_on sep cs of w # ws \<Rightarrow> (c # w) # ws | [] \<Rightarrow> [[c]]))"

text \<open>
  The first steps of \<^verbatim>\<open>urlsplit\<close>: leading C0 control characters and spaces are stripped,
  then tab, carriage return and line feed are removed everywhere.
\<close>

definition clean_url :: "string \<Rightarrow> string" where
  "clean_url url =
     filter (\<lambda>c. c \<notin> set [char_of (9::nat), char_of (13::nat), char_of (10::nat)])
       (dropWhile (\<lambda>c. (of_char c :: nat) \<le> 32) url)"

text \<open>
  The scheme: the text before the first colon, when the colon is not at the start, the
  first character is an ASCII letter and all characters before the colon are scheme
  characters.
\<close>

definition has_scheme :: "string \<Rightarrow> bool" where
  "has_scheme url \<longleftrightarrow>
     CHR '':'' \<in> set url \<and> before CHR '':'' url \<noteq> [] \<and> is_ascii_alpha (hd url) \<and>
     list_all (\<lambda>c. c \<in> set scheme_chars) (before CHR '':'' url)"

definition split_scheme :: "string \<Rightarrow> string \<times> string" where
  "split_scheme url =
     (if has_scheme url then (lower (before CHR '':'' url), after CHR '':'' url) else ([], url))"

definition netloc_delim :: "char \<Rightarrow> bool" where
  "netloc_delim c \<longleftrightarrow> c \<in> set ''/?#''"

definition split_netloc :: "string \<Rightarrow> string \<times> string" where
  "split_netloc url =
     (if take 2 url = ''//''
      then (takeWhile (\<lambda>c. \<not> netloc_delim c) (drop 2 url),
            dropWhile (\<lambda>c. \<not> netloc_delim c) (drop 2 url))
      else ([], url))"

text \<open>The checks that make \<^verbatim>\<open>urlsplit\<close> raise ValueError.\<close>

definition netloc_rejected :: "urllib \<Rightarrow> string \<Rightarrow> bool" where
  "netloc_rejected lib netloc \<longleftrightarrow>
     (CHR ''['' \<in> set netloc \<and> CHR '']'' \<notin> set netloc) \<or>
     (CHR '']'' \<in> set netloc \<and> CHR ''['' \<notin> set netloc) \<or>
     (CHR ''['' \<in> set netloc \<and> CHR '']'' \<in> set netloc \<and> bad_bracketed_netloc lib netloc) \<or>
     (netloc \<noteq> [] \<and> \<not> is_ascii netloc \<and> bad_nfkc_netloc lib netloc)"

definition urlsplit :: "urllib \<Rightarrow> string \<Rightarrow> py_error + split_result" where
  "urlsplit lib url0 =
     (let url = clean_url url0;
          (scheme, url) = split_scheme url;
          (netloc, url) = split_netloc url
      in if netloc_rejected lib netloc then Inl ValueError
         else
           let fragment = after CHR ''#'' url;
               url = before CHR ''#'' url;
               query = after CHR ''?'' url;
               url = before CHR ''?'' url
           in Inr \<lparr>sr_scheme = scheme, sr_netloc = netloc, sr_path = url,
                    sr_query = query, sr_fragment = fragment\<rparr>)"

text \<open>\<^verbatim>\<open>unquote\<close> returns its argument when it has no percent sign.\<close>

definition unquote :: "urllib \<Rightarrow> string \<Rightarrow> string" where
  "unquote lib s = (if CHR ''%'' \<notin> set s then s else percent_decode lib s)"

definition plus_to_space :: "string \<Rightarrow> string" where
  "plus_to_space s = map (\<lambda>c. if c = CHR ''+'' then CHR '' '' else c) s"

text \<open>
  \<^verbatim>\<open>parse_qsl(query, keep_blank_values=True)\<close>: the fields between ampersands, empty
  fields skipped; a field without an equals sign has the empty value.
\<close>

definition parse_qsl :: "urllib \<Rightarrow> string \<Rightarrow> (string \<times> string) list" where
  "parse_qsl lib qs =
     map (\<lambda>name_value. (unquote lib (plus_to_space (before CHR ''='' name_value)),
                         unquote lib (plus_to_space (after CHR ''='' name_value))))
       (filter (\<lambda>name_value. name_value \<noteq> []) (split_on CHR ''&'' qs))"

definition always_safe :: string where
  "always_safe = ascii_uppercase @ ascii_lowercase @ digits @ ''_.-~''"

definition hex_byte :: "char \<Rightarrow> string" where
  "hex_byte c = [''0123456789ABCDEF'' ! ((of_char c :: nat) div 16),
                 ''0123456789ABCDEF'' ! ((of_char c :: nat) mod 16)]"

definition quote_plus :: "string \<Rightarrow> string" where
  "quote_plus s =
     concat (map (\<lambda>c. if c = CHR '' '' then ''+''
                       else if c \<in> set always_safe then [c]
                       else CHR ''%'' # hex_byte c) s)"

fun join :: "string \<Rightarrow> string list \<Rightarrow> string" where
  "join sep [] = []"
| "join sep [w] = w"
| "join sep (w # ws) = w @ sep @ join sep ws"

definition urlencode :: "(string \<times> string) list \<Rightarrow> string" where
  "urlencode query = join ''&'' (map (\<lambda>(k, v). quote_plus k @ ''='' @ quote_plus v) query)"

definition uses_netloc :: "string list" where
  "uses_netloc = ['''', ''ftp'', ''http'', ''gopher'', ''nntp'', ''telnet'', ''imap'', ''wais'',
     ''file'', ''mms'', ''https'', ''shttp'', ''snews'', ''prospero'', ''rtsp'', ''rtsps'',
     ''rtspu'', ''rsync'', ''svn'', ''svn+ssh'', ''sftp'', ''nfs'', ''git'', ''git+ssh'',
     ''ws'', ''wss'', ''itms-services'']"

definition with_authority :: "string \<Rightarrow> string \<Rightarrow> string \<Rightarrow> string" where
  "with_authority scheme netloc url =
     (if netloc \<noteq> [] then ''//'' @ netloc @ (if url \<noteq> [] \<and> hd url \<noteq> CHR ''/'' then CHR ''/'' # url else url)
      else if take 2 url = ''//'' then ''//'' @ url
      else if scheme \<noteq> [] \<and> scheme \<in> set uses_netloc \<and> (url = [] \<or> hd url = CHR ''/'')
      then ''//'' @ url
      else url)"

definition urlunsplit :: "string \<Rightarrow> string \<Rightarrow> string \<Rightarrow> string \<Rightarrow> string \<Rightarrow> string" where
  "urlunsplit scheme netloc path query fragment =
     (let url = with_authority scheme netloc path;
          url = (if scheme \<noteq> [] then scheme @ '':'' @ url else url);
          url = (if query \<noteq> [] then url @ ''?'' @ query else url);
          url = (if fragment \<noteq> [] then url @ ''#'' @ fragment else url)
      in url)"

definition is_tracking :: "string \<Rightarrow> bool" where
  "is_tracking k \<longleftrightarrow>
     (let lk = lower k
      in take 4 lk = ''utm_'' \<or> lk \<in> set [''ref'', ''fbclid'', ''gclid'', ''mc_cid'', ''mc_eid''])"

definition normalize_url :: "urllib \<Rightarrow> string \<Rightarrow> string" where
  "normalize_url lib url =
     (if url = [] then []
      else case urlsplit lib url of
             Inl e \<Rightarrow> before CHR ''#'' url
           | Inr parts \<Rightarrow>
               (let keep_q = filter (\<lambda>(k, v). \<not> is_tracking k) (parse_qsl lib (sr_query parts));
                    query = urlencode keep_q
                in urlunsplit (sr_scheme parts) (sr_netloc parts) (sr_path parts) query []))"

text \<open>A library for the examples: nothing is rejected and percent escapes are left alone.\<close>

definition plain_lib :: urllib where
  "plain_lib = \<lparr>bad_bracketed_netloc = (\<lambda>n. False), bad_nfkc_netloc = (\<lambda>n. False),
                 percent_decode = (\<lambda>s. s)\<rparr>"

section \<open>Predicates for the proofs about normalize\_url\<close>





section \<open>download/app.py: run\_download\_bot\<close>

text \<open>
  The crawl of one job, as far as it decides what is written to the checkpoint file and
  to the two queues. The browser, the stop flag and the stores' availability are inputs:
  one \<open>turn\<close> record for each turn of the \<^verbatim>\<open>while\<close> loop says what the code observes in that
  turn. Login, waiting, scrolling, the optional profile suggestions, the cover image,
  metrics and log lines write none of these and are left out; so are the heartbeats.
\<close>

record chapter_entry =
  numero :: nat
  ch_url :: string
  imagens :: nat
  ch_status :: string

text \<open>
  The entry of \<^verbatim>\<open>progress.json\<close> for one work. A key that a \<^verbatim>\<open>save_progress\<close> call does not
  write is absent afterwards, since the call replaces the whole entry.
\<close>

record progress =
  ultimo_capitulo_url :: "string option"
  capitulos_baixados :: "chapter_entry list"
  upload_enqueued_key :: "bool option"

text \<open>The job dict, with the keys the loop reads.\<close>

record crawl_job =
  cj_id :: string
  cj_job_id :: "string option"
  cj_pasta :: "string option"
  cj_url :: string
  cj_nome :: string
  cj_expected_total :: int
  cj_batch_size :: int
  cj_force_url :: bool

text \<open>
  Module constants read from the environment, the downloads directory, and
  \<^verbatim>\<open>json.dumps\<close> of the payload that \<^verbatim>\<open>adicionar_fila_upload\<close> builds from the job, the
  name, the folder and the job id.
\<close>

record config =
  min_images_per_chapter :: int
  min_images_partial :: int
  batch_size_default :: int
  downloads_dir :: string
  dumps_payload :: "crawl_job \<Rightarrow> string \<Rightarrow> string \<Rightarrow> string \<Rightarrow> string"

text \<open>
  What persists: the checkpoint file, the upload queue and the download queue.
  \<open>upload_calls\<close> records, in order, the job ids of the calls of \<^verbatim>\<open>QUEUE_STORE.enqueue\<close>
  that went through.
\<close>

record world =
  progress_file :: "string \<rightharpoonup> progress"
  upload_queue :: queue_store
  download_queue :: download_store
  upload_calls :: "string list"

datatype advance = NoNext | NextUrl string | NextRaises

text \<open>
  One turn of the loop: the clock, \<^verbatim>\<open>_should_continue()\<close> at the head of the loop, whether
  something outside the inner \<^verbatim>\<open>try\<close> blocks raises (the outer handler then ends the
  job), \<^verbatim>\<open>page.url\<close>, the number of extracted images, \<^verbatim>\<open>is_probably_blocked\<close>, whether
  \<^verbatim>\<open>_should_continue()\<close> stayed true during the image loop, the number of images
  downloaded, \<^verbatim>\<open>_should_continue()\<close> after the chapter, what the click on the next button
  gives, and whether the upload queue accepts an enqueue.
\<close>

record turn =
  t_now :: int
  t_cont_top :: bool
  t_fatal :: bool
  t_page_url :: string
  t_found :: nat
  t_blocked :: bool
  t_cont_images :: bool
  t_downloaded :: nat
  t_cont_after :: bool
  t_next_click :: advance
  t_upload_ok :: bool

text \<open>The local variables of \<^verbatim>\<open>run_download_bot\<close> that the loop changes.\<close>

record crawl_state =
  capitulo :: nat
  caps :: "chapter_entry list"
  visited_urls :: "string list"
  upload_enqueued :: bool
  batch_counter :: nat

text \<open>
  How the loop ends: left with \<^verbatim>\<open>stop_reason\<close> unset, left with a stop reason, the
  \<^verbatim>\<open>return\<close> of the batch rotation, the outer exception handler, or the script of turns
  ran out while the loop was still going.
\<close>

datatype outcome = Finished | Stopped string | BatchRequeued | Crashed | OutOfTurns

definition load_progress :: "string \<Rightarrow> world \<Rightarrow> progress" where
  "load_progress obra w =
     (case progress_file w obra of
        Some p \<Rightarrow> p
      | None \<Rightarrow> \<lparr>ultimo_capitulo_url = None, capitulos_baixados = [], upload_enqueued_key = None\<rparr>)"

definition save_progress :: "string \<Rightarrow> progress \<Rightarrow> world \<Rightarrow> world" where
  "save_progress obra progress_data w = w\<lparr>progress_file := (progress_file w)(obra \<mapsto> progress_data)\<rparr>"

definition clear_progress :: "string \<Rightarrow> world \<Rightarrow> world" where
  "clear_progress obra w = w\<lparr>progress_file := (progress_file w)(obra := None)\<rparr>"

text \<open>
  \<^verbatim>\<open>adicionar_fila_upload\<close>: the job id is the job's \<^verbatim>\<open>job_id\<close>, else its \<^verbatim>\<open>id\<close>, else
  the name and the time. It returns False when the enqueue raises.
\<close>

definition upload_job_id :: "int \<Rightarrow> string \<Rightarrow> crawl_job \<Rightarrow> string" where
  "upload_job_id ts obra job =
     (case cj_job_id job of
        Some j \<Rightarrow> if j \<noteq> [] then j
                  else if cj_id job \<noteq> [] then cj_id job else obra @ ''-'' @ str_int ts
      | None \<Rightarrow> if cj_id job \<noteq> [] then cj_id job else obra @ ''-'' @ str_int ts)"

definition job_folder :: "config \<Rightarrow> string \<Rightarrow> crawl_job \<Rightarrow> string" where
  "job_folder cfg obra job =
     (case cj_pasta job of
        Some p \<Rightarrow> if p \<noteq> [] then p else downloads_dir cfg @ ''/'' @ obra
      | None \<Rightarrow> downloads_dir cfg @ ''/'' @ obra)"

definition adicionar_fila_upload ::
  "config \<Rightarrow> int \<Rightarrow> bool \<Rightarrow> string \<Rightarrow> crawl_job \<Rightarrow> world \<Rightarrow> bool \<times> world" where
  "adicionar_fila_upload cfg ts store_ok obra job w =
     (let jid = upload_job_id ts obra job;
          folder = job_folder cfg obra job;
          payload = dumps_payload cfg job obra folder jid
      in if store_ok
         then (True, w\<lparr>upload_queue := enqueue ts jid obra folder payload (upload_queue w),
                       upload_calls := upload_calls w @ [jid]\<rparr>)
         else (False, w))"

definition effective_batch_size :: "config \<Rightarrow> crawl_job \<Rightarrow> int" where
  "effective_batch_size cfg job =
     (if cj_batch_size job \<noteq> 0 then cj_batch_size job else batch_size_default cfg)"

text \<open>
  The step after a chapter whose next page is new (lines 1407 to 1457): save the
  checkpoint with the flag, enqueue the upload once under the flag, count, and rotate the
  batch when it is full. The result says whether the function returns here.
\<close>

definition after_advance ::
  "config \<Rightarrow> crawl_job \<Rightarrow> turn \<Rightarrow> string \<Rightarrow> crawl_state \<Rightarrow> world \<Rightarrow> bool \<times> crawl_state \<times> world" where
  "after_advance cfg job e new_url st w =
     (let obra = cj_nome job;
          w1 = save_progress obra
                 \<lparr>ultimo_capitulo_url = Some new_url, capitulos_baixados = caps st,
                  upload_enqueued_key = Some (upload_enqueued st)\<rparr> w;
          (st2, w2) =
            (if \<not> upload_enqueued st \<and> length (caps st) \<ge> 1
             then (case adicionar_fila_upload cfg (t_now e) (t_upload_ok e) obra job w1 of
                     (True, w') \<Rightarrow>
                       (st\<lparr>upload_enqueued := True\<rparr>,
                        save_progress obra
                          \<lparr>ultimo_capitulo_url = Some new_url, capitulos_baixados = caps st,
                           upload_enqueued_key = Some True\<rparr> w')
                   | (False, w') \<Rightarrow> (st, w'))
             else (st, w1));
          st3 = st2\<lparr>capitulo := capitulo st2 + 1, batch_counter := batch_counter st2 + 1\<rparr>;
          batch_size = effective_batch_size cfg job
      in if batch_size > 0 \<and> int (batch_counter st3) \<ge> batch_size
         then (True, st3,
               w2\<lparr>download_queue :=
                    dl_enqueue (t_now e) new_url obra (downloads_dir cfg @ ''/'' @ obra)
                      (cj_expected_total job) batch_size
                      (cj_id job @ ''-cont-'' @ str_int (t_now e)) (download_queue w2)\<rparr>)
         else (False, st3, w2))"

fun crawl_loop ::
  "config \<Rightarrow> urllib \<Rightarrow> crawl_job \<Rightarrow> turn list \<Rightarrow> crawl_state \<Rightarrow> world \<Rightarrow> outcome \<times> crawl_state \<times> world" where
  "crawl_loop cfg lib job [] st w = (OutOfTurns, st, w)"
| "crawl_loop cfg lib job (e # es) st w =
     (let obra = cj_nome job;
          current_url = t_page_url e;
          current_url_norm = normalize_url lib current_url
      in
      if \<not> t_cont_top e then (Finished, st, w)
      else if t_fatal e then (Crashed, st, w)
      else if cj_expected_total job > 0 \<and> int (capitulo st) > cj_expected_total job
      then (Stopped ''expected_total_reached'', st, w)
      else if current_url_norm \<in> set (visited_urls st)
      then (Stopped ''url_repetida'', st,
            save_progress obra
              \<lparr>ultimo_capitulo_url = Some current_url, capitulos_baixados = caps st,
               upload_enqueued_key = None\<rparr> w)
      else
        let st1 = st\<lparr>visited_urls := current_url_norm # visited_urls st\<rparr>;
            label = classify (min_images_per_chapter cfg) (min_images_partial cfg) (t_found e)
        in
        if label = ''broken'' \<and> t_blocked e
        then (let st2 = st1\<lparr>caps := caps st1 @
                          [\<lparr>numero = capitulo st1, ch_url = current_url, imagens = 0,
                            ch_status = ''blocked''\<rparr>]\<rparr>
              in (Stopped ''blocked'', st2,
                  save_progress obra
                    \<lparr>ultimo_capitulo_url = Some current_url, capitulos_baixados = caps st2,
                     upload_enqueued_key = None\<rparr> w))
        else
          let w1 = (if t_found e \<noteq> 0 \<and> \<not> t_cont_images e
                    then save_progress obra
                           \<lparr>ultimo_capitulo_url = Some current_url, capitulos_baixados = caps st1,
                            upload_enqueued_key = None\<rparr> w
                    else w);
              st2 = st1\<lparr>caps := caps st1 @
                      [\<lparr>numero = capitulo st1, ch_url = current_url,
                        imagens = (if t_found e = 0 then 0 else t_downloaded e), ch_status = label\<rparr>]\<rparr>
          in
          if \<not> t_cont_after e then (Finished, st2, w1)
          else
            (case t_next_click e of
               NextRaises \<Rightarrow> (Finished, st2, w1)
             | NoNext \<Rightarrow> (Finished, st2, clear_progress obra w1)
             | NextUrl new_url \<Rightarrow>
                 if normalize_url lib new_url = current_url_norm
                    \<or> normalize_url lib new_url \<in> set (visited_urls st2)
                 then (Stopped ''next_nao_avancou'', st2,
                       save_progress obra
                         \<lparr>ultimo_capitulo_url = Some new_url, capitulos_baixados = caps st2,
                          upload_enqueued_key = None\<rparr> w1)
                 else (case after_advance cfg job e new_url st2 w1 of
                         (True, st3, w3) \<Rightarrow> (BatchRequeued, st3, w3)
                       | (False, st3, w3) \<Rightarrow> crawl_loop cfg lib job es st3 w3)))"

text \<open>
  \<^verbatim>\<open>run_download_bot\<close>: load the checkpoint, run the loop, and after a loop that ended
  with no stop reason add the work to the upload queue (line 1560). \<open>at_end\<close> is the clock
  and the upload queue's availability at that point.
\<close>

definition run_download_bot ::
  "config \<Rightarrow> urllib \<Rightarrow> crawl_job \<Rightarrow> turn list \<Rightarrow> int \<times> bool \<Rightarrow> world \<Rightarrow> outcome \<times> world" where
  "run_download_bot cfg lib job turns at_end w =
     (let obra = cj_nome job;
          progress_data = load_progress obra w;
          capitulos = capitulos_baixados progress_data;
          start_url = (case ultimo_capitulo_url progress_data of
                         Some u \<Rightarrow> if u \<noteq> [] \<and> \<not> cj_force_url job then u else cj_url job
                       | None \<Rightarrow> cj_url job);
          st0 = \<lparr>capitulo = length capitulos + 1, caps = capitulos,
                 visited_urls = rev (filter (\<lambda>u. u \<noteq> [])
                                   (map (\<lambda>c. normalize_url lib (ch_url c)) capitulos)),
                 upload_enqueued = (upload_enqueued_key progress_data = Some True),
                 batch_counter = 0\<rparr>
      in case crawl_loop cfg lib job turns st0 w of
           (Finished, st, w') \<Rightarrow>
             (Finished, snd (adicionar_fila_upload cfg (fst at_end) (snd at_end) obra job w'))
         | (Crashed, st, w') \<Rightarrow>
             (Crashed,
              if caps st \<noteq> []
              then save_progress obra
                     \<lparr>ultimo_capitulo_url = Some start_url, capitulos_baixados = caps st,
                      upload_enqueued_key = None\<rparr> w'
              else w')
         | (other, st, w') \<Rightarrow> (other, w'))"

text \<open>
  A work of two chapters crawled with a batch size of one: the first job and the
  continuation that the batch rotation enqueues, as the worker builds it from its row.
\<close>

definition demo_config :: config where
  "demo_config = \<lparr>min_images_per_chapter = 3, min_images_partial = 1, batch_size_default = 0,
     downloads_dir = ''/downloads'', dumps_payload = (\<lambda>job obra folder jid. jid)\<rparr>"

definition first_job :: crawl_job where
  "first_job = \<lparr>cj_id = ''j1'', cj_job_id = Some ''j1'', cj_pasta = None,
     cj_url = ''https://x/c1'', cj_nome = ''obra'', cj_expected_total = 0, cj_batch_size = 1,
     cj_force_url = False\<rparr>"

definition continuation_job :: crawl_job where
  "continuation_job = \<lparr>cj_id = ''j1-cont-100'', cj_job_id = Some ''j1-cont-100'', cj_pasta = None,
     cj_url = ''https://x/c2'', cj_nome = ''obra'', cj_expected_total = 0, cj_batch_size = 1,
     cj_force_url = False\<rparr>"

definition first_turn :: turn where
  "first_turn = \<lparr>t_now = 100, t_cont_top = True, t_fatal = False, t_page_url = ''https://x/c1'',
     t_found = 5, t_blocked = False, t_cont_images = True, t_downloaded = 5, t_cont_after = True,
     t_next_click = NextUrl ''https://x/c2'', t_upload_ok = True\<rparr>"

definition last_turn :: turn where
  "last_turn = \<lparr>t_now = 200, t_cont_top = True, t_fatal = False, t_page_url = ''https://x/c2'',
     t_found = 5, t_blocked = False, t_cont_images = True, t_downloaded = 5, t_cont_after = True,
     t_next_click = NoNext, t_upload_ok = True\<rparr>"

definition empty_world :: world where
  "empty_world = \<lparr>progress_file = Map.empty, upload_queue = [], download_queue = [],
     upload_calls = []\<rparr>"

definition after_first_job :: world where
  "after_first_job = snd (run_download_bot demo_config plain_lib first_job [first_turn] (150, True) empty_world)"

definition after_continuation :: world where
  "after_continuation =
     snd (run_download_bot demo_config plain_lib continuation_job [last_turn] (250, True) after_first_job)"

section \<open>Tables: lookups and updates\<close>

lemma find_SomeD: "find P xs = Some x \<Longrightarrow> P x \<and> x \<in> set xs"
  by (induction xs) (auto split: if_splits)

lemma find_None_key: "find (\<lambda>r. key r = k) s = None \<Longrightarrow> k \<notin> key ` set s"
  by (induction s) (auto split: if_splits)

lemma find_distinct_key:
  "distinct (map key s) \<Longrightarrow> r \<in> set s \<Longrightarrow> find (\<lambda>x. key x = key r) s = Some r"
  by (induction s) (auto simp: image_iff)

lemma find_sql_update:
  assumes "\<And>r. key (upd r) = key r"
  shows "find (\<lambda>r. key r = k) (sql_update cond upd s)
         = map_option (\<lambda>r. if cond r then upd r else r) (find (\<lambda>r. key r = k) s)"
  using assms by (induction s) (simp_all add: sql_update_def)

lemma map_field_sql_update:
  assumes "\<And>r. f (upd r) = f r"
  shows "map f (sql_update cond upd s) = map f s"
  using assms by (simp add: sql_update_def)

lemma map_field_fold_sql_update:
  assumes "\<And>r. f (upd r) = f r"
  shows "map f (fold (\<lambda>row. sql_update (c row) upd) rows s) = map f s"
  using assms by (induction rows arbitrary: s) (simp_all add: map_field_sql_update)

lemma first_by_in_set: "first_by key rs = Some r \<Longrightarrow> r \<in> set rs"
  by (induction rs arbitrary: r) (auto split: option.splits if_splits)

text \<open>Updating the selected rows one by one by key is one update of the selected rows.\<close>

lemma fold_sql_update_keys:
  assumes "\<And>r. key (upd r) = key r" and "distinct (map key rows)"
  shows "fold (\<lambda>row. sql_update (\<lambda>r. key r = key row) upd) rows s
         = sql_update (\<lambda>r. key r \<in> key ` set rows) upd s"
  using assms(2)
proof (induction rows arbitrary: s)
  case Nil
  then show ?case by (simp add: sql_update_def)
next
  case (Cons row rows)
  have "fold (\<lambda>row. sql_update (\<lambda>r. key r = key row) upd) (row # rows) s
        = sql_update (\<lambda>r. key r \<in> key ` set rows) upd (sql_update (\<lambda>r. key r = key row) upd s)"
    using Cons by simp
  also have "\<dots> = sql_update (\<lambda>r. key r \<in> key ` set (row # rows)) upd s"
    using Cons.prems assms(1) by (auto simp: sql_update_def)
  finally show ?case .
qed

section \<open>The upload queue\<close>

lemma get_job_SomeD: "get_job s j = Some r \<Longrightarrow> ident r = j \<and> r \<in> set s"
  unfolding get_job_def by (drule find_SomeD) simp

lemma reclaim_stale_processing_eq:
  assumes "distinct (map ident s)"
  shows "snd (reclaim_stale_processing now t s)
         = sql_update (stale_processing (now - t)) (reclaim_row now) s"
proof -
  let ?rows = "filter (stale_processing (now - t)) s"
  have d: "distinct (map ident ?rows)"
    using assms by (simp add: distinct_map_filter)
  have k: "\<And>r. ident (reclaim_row now r) = ident r"
    by (simp add: reclaim_row_def)
  have "snd (reclaim_stale_processing now t s)
        = sql_update (\<lambda>r. ident r \<in> ident ` set ?rows) (reclaim_row now) s"
    unfolding reclaim_stale_processing_def Let_def snd_conv
    by (rule fold_sql_update_keys [where key = ident, OF k d])
  also have "\<dots> = sql_update (stale_processing (now - t)) (reclaim_row now) s"
    unfolding sql_update_def
  proof (rule map_cong [OF refl])
    fix r assume r: "r \<in> set s"
    have "ident r \<in> ident ` set ?rows \<longleftrightarrow> stale_processing (now - t) r"
      using assms r by (auto simp: distinct_map inj_on_def)
    then show "(if ident r \<in> ident ` set ?rows then reclaim_row now r else r)
               = (if stale_processing (now - t) r then reclaim_row now r else r)"
      by simp
  qed
  finally show ?thesis .
qed

lemma get_job_mark_failed:
  "get_job s j = Some r \<Longrightarrow>
   get_job (snd (mark_failed ts j err requeue max_tries s)) j =
     Some (r\<lparr>tries := tries r + 1, last_error := Some err,
             status := (if requeue \<and> tries r + 1 < max_tries then ''queued'' else ''failed''),
             available_at := (if requeue \<and> tries r + 1 < max_tries
                              then Some (ts + compute_backoff_seconds (tries r + 1)) else None),
             updated_at := ts, worker_id := None, heartbeat_at := None,
             processing_started_at := None\<rparr>)"
  using get_job_SomeD [of s j r]
  by (simp add: mark_failed_def Let_def get_job_def find_sql_update [where key = ident])

lemma distinct_enqueue:
  "distinct (map ident s) \<Longrightarrow> distinct (map ident (enqueue ts jid obra folder payload s))"
  by (auto simp: enqueue_def get_job_def map_field_sql_update [where f = ident]
      split: option.splits dest: find_None_key)

lemma distinct_queue_step:
  "distinct (map ident s) \<Longrightarrow> distinct (map ident (queue_step opn s))"
proof (cases opn)
  case (Enqueue ts jid obra folder payload)
  then show "distinct (map ident s) \<Longrightarrow> ?thesis" by (simp add: distinct_enqueue)
next
  case (ReclaimStaleProcessing now t)
  then show "distinct (map ident s) \<Longrightarrow> ?thesis"
    by (simp add: reclaim_stale_processing_def Let_def reclaim_row_def
        map_field_fold_sql_update [where f = ident])
next
  case (ClaimNext ts wid)
  then show "distinct (map ident s) \<Longrightarrow> ?thesis"
    by (simp add: claim_next_def Let_def claim_row_def map_field_sql_update [where f = ident]
        split: option.splits)
next
  case (Heartbeat ts jid wid)
  then show "distinct (map ident s) \<Longrightarrow> ?thesis"
    by (simp add: heartbeat_def map_field_sql_update [where f = ident])
next
  case (MarkDone ts jid)
  then show "distinct (map ident s) \<Longrightarrow> ?thesis"
    by (simp add: mark_done_def map_field_sql_update [where f = ident])
next
  case (MarkFailed ts jid err requeue max_tries)
  then show "distinct (map ident s) \<Longrightarrow> ?thesis"
    by (simp add: mark_failed_def Let_def map_field_sql_update [where f = ident])
qed

lemma distinct_run_queue:
  "distinct (map ident s) \<Longrightarrow> distinct (map ident (run_queue ops s))"
  unfolding run_queue_def
  by (induction ops arbitrary: s) (simp_all add: distinct_queue_step)

lemma claim_next_SomeD:
  assumes d: "distinct (map ident s)" and c: "claim_next ts wid s = (Some j, s')"
  shows "\<exists>row. row \<in> set s \<and> claimable ts row \<and> j = claim_row ts wid row \<and>
           s' = sql_update (\<lambda>r. ident r = ident row) (claim_row ts wid) s"
proof -
  obtain row where f: "first_by created_at (filter (claimable ts) s) = Some row"
    using c by (auto simp: claim_next_def split: option.splits)
  then have "row \<in> set (filter (claimable ts) s)" by (rule first_by_in_set)
  then have row: "row \<in> set s" "claimable ts row" by simp_all
  have s': "s' = sql_update (\<lambda>r. ident r = ident row) (claim_row ts wid) s"
    using c f by (simp add: claim_next_def Let_def)
  have "get_job s (ident row) = Some row"
    unfolding get_job_def using d row(1) by (rule find_distinct_key)
  then have "get_job s' (ident row) = Some (claim_row ts wid row)"
    unfolding s' get_job_def
    by (simp add: find_sql_update [where key = ident] claim_row_def)
  moreover have "get_job s' (ident row) = Some j"
    using c f by (simp add: claim_next_def Let_def s')
  ultimately have "j = claim_row ts wid row" by simp
  with row s' show ?thesis by blast
qed

lemma claim_next_props:
  assumes d: "distinct (map ident s)" and c: "claim_next ts wid s = (Some j, s')"
  shows "(\<exists>r. get_job s (ident j) = Some r \<and> status r = ''queued'' \<and>
              (case available_at r of None \<Rightarrow> True | Some a \<Rightarrow> a \<le> ts)) \<and>
         status j = ''processing'' \<and> worker_id j = Some wid \<and>
         get_job s' (ident j) = Some j \<and>
         (\<forall>k. k \<noteq> ident j \<longrightarrow> get_job s' k = get_job s k)"
proof -
  obtain row where row: "row \<in> set s" "claimable ts row" and j: "j = claim_row ts wid row"
    and s': "s' = sql_update (\<lambda>r. ident r = ident row) (claim_row ts wid) s"
    using claim_next_SomeD [OF d c] by blast
  have id: "ident j = ident row" by (simp add: j claim_row_def)
  have g: "get_job s (ident row) = Some row"
    unfolding get_job_def using d row(1) by (rule find_distinct_key)
  have 1: "\<exists>r. get_job s (ident j) = Some r \<and> status r = ''queued'' \<and>
              (case available_at r of None \<Rightarrow> True | Some a \<Rightarrow> a \<le> ts)"
    using g row(2) id by (auto simp: claimable_def)
  have 2: "status j = ''processing''" "worker_id j = Some wid" by (simp_all add: j claim_row_def)
  have 3: "get_job s' (ident j) = Some j"
    using g unfolding id s' j get_job_def
    by (simp add: find_sql_update [where key = ident] claim_row_def)
  have 4: "get_job s' k = get_job s k" if "k \<noteq> ident j" for k
  proof (cases "get_job s k")
    case None
    then show ?thesis unfolding s' get_job_def
      by (simp add: find_sql_update [where key = ident] claim_row_def)
  next
    case (Some r)
    then have "ident r = k" by (simp add: get_job_SomeD)
    with that id have "ident r \<noteq> ident row" by simp
    with Some show ?thesis unfolding s' get_job_def
      by (simp add: find_sql_update [where key = ident] claim_row_def)
  qed
  from 1 2 3 4 show ?thesis by blast
qed

lemma claim_next_skips_processing:
  assumes d: "distinct (map ident s)" and c: "claim_next ts wid s = (Some j, s')"
    and g: "get_job s k = Some r" and st: "status r = ''processing''"
  shows "ident j \<noteq> k"
proof
  assume "ident j = k"
  with claim_next_props [OF d c] g have "status r = ''queued''" by auto
  with st show False by simp
qed

lemma compute_backoff_seconds_mono:
  "n \<le> m \<Longrightarrow> compute_backoff_seconds n \<le> compute_backoff_seconds m"
proof -
  assume "n \<le> m"
  then have "nat (max 0 (n - 1)) \<le> nat (max 0 (m - 1))" by simp
  then have "(2::int) ^ nat (max 0 (n - 1)) \<le> 2 ^ nat (max 0 (m - 1))"
    by (rule power_increasing) simp
  then show ?thesis by (simp add: compute_backoff_seconds_def min_le_iff_disj)
qed

section \<open>The download queue\<close>

lemma dl_get_job_SomeD:
  "dl_get_job_by_job_id s j = Some r \<Longrightarrow> d_job_id r = j \<and> r \<in> set s"
  unfolding dl_get_job_by_job_id_def by (drule find_SomeD) simp

lemma foldr_max_ge: "x \<in> set xs \<Longrightarrow> x \<le> foldr max xs (0::int)"
  by (induction xs) auto

lemma next_id_fresh: "next_id s \<notin> d_id ` set s"
proof
  assume "next_id s \<in> d_id ` set s"
  then have "next_id s \<in> set (map d_id s)" by simp
  then have "next_id s \<le> foldr max (map d_id s) 0" by (rule foldr_max_ge)
  then show False by (simp add: next_id_def)
qed

lemma wf_dl_enqueue:
  "wf_download_store s \<Longrightarrow> wf_download_store (dl_enqueue now url nome folder et bs jid s)"
  using next_id_fresh [of s]
  by (auto simp: wf_download_store_def dl_enqueue_def dl_get_job_by_job_id_def
      split: option.splits dest: find_None_key)

lemma wf_sql_update:
  assumes "\<And>r. d_id (upd r) = d_id r" "\<And>r. d_job_id (upd r) = d_job_id r"
  shows "wf_download_store (sql_update cond upd s) = wf_download_store s"
  using assms by (simp add: wf_download_store_def map_field_sql_update)

lemma wf_download_step:
  "wf_download_store s \<Longrightarrow> wf_download_store (download_step opn s)"
proof (cases opn)
  case (DlEnqueue now url nome folder et bs jid)
  then show "wf_download_store s \<Longrightarrow> ?thesis" by (simp add: wf_dl_enqueue)
next
  case (DlClaimNext now wid)
  then show "wf_download_store s \<Longrightarrow> ?thesis"
    by (simp add: dl_claim_next_def Let_def dl_claim_row_def wf_sql_update split: option.splits)
next
  case (DlHeartbeat now jid c p t st)
  then show "wf_download_store s \<Longrightarrow> ?thesis" by (simp add: dl_heartbeat_def wf_sql_update)
next
  case (DlSetStatus now jid st state)
  then show "wf_download_store s \<Longrightarrow> ?thesis" by (simp add: dl_set_status_def wf_sql_update)
next
  case (DlMarkDone now jid res summ)
  then show "wf_download_store s \<Longrightarrow> ?thesis" by (simp add: dl_mark_done_def wf_sql_update)
next
  case (DlMarkFailed now jid err nxt)
  then show "wf_download_store s \<Longrightarrow> ?thesis" by (simp add: dl_mark_failed_def wf_sql_update)
next
  case (DlFailPermanently now jid err)
  then show "wf_download_store s \<Longrightarrow> ?thesis" by (simp add: dl_fail_permanently_def wf_sql_update)
next
  case (DlReclaimStaleDownloading now t)
  then show "wf_download_store s \<Longrightarrow> ?thesis"
    by (simp add: dl_reclaim_stale_downloading_def Let_def dl_reclaim_row_def wf_sql_update)
qed

lemma wf_run_download:
  "wf_download_store s \<Longrightarrow> wf_download_store (run_download ops s)"
  unfolding run_download_def
  by (induction ops arbitrary: s) (simp_all add: wf_download_step)

lemma dl_claim_next_SomeD:
  assumes d: "wf_download_store s" and c: "dl_claim_next now wid s = (Some j, s')"
  shows "\<exists>row. row \<in> set s \<and> dl_claimable now row \<and> j = dl_claim_row now wid row \<and>
           s' = sql_update (\<lambda>r. d_id r = d_id row \<and> d_status r = ''queued'') (dl_claim_row now wid) s"
proof -
  obtain row where f: "first_by d_created_at (filter (dl_claimable now) s) = Some row"
    using c by (auto simp: dl_claim_next_def split: option.splits)
  then have "row \<in> set (filter (dl_claimable now) s)" by (rule first_by_in_set)
  then have row: "row \<in> set s" "dl_claimable now row" by simp_all
  have s': "s' = sql_update (\<lambda>r. d_id r = d_id row \<and> d_status r = ''queued'') (dl_claim_row now wid) s"
    and j: "map_option (dl_claim_row now wid)
              (find (\<lambda>r. d_id r = d_id row \<and> d_status r = ''queued'') s) = Some j"
    using c f by (simp_all add: dl_claim_next_def Let_def)
  obtain r0 where r0: "find (\<lambda>r. d_id r = d_id row \<and> d_status r = ''queued'') s = Some r0"
    using j by (cases "find (\<lambda>r. d_id r = d_id row \<and> d_status r = ''queued'') s") simp_all
  then have "d_id r0 = d_id row" "r0 \<in> set s" by (auto dest: find_SomeD)
  then have "r0 = row"
    using d row(1) unfolding wf_download_store_def by (auto simp: distinct_map inj_on_def)
  then have "j = dl_claim_row now wid row" using j r0 by simp
  with row s' show ?thesis by blast
qed

lemma dl_find_job_id:
  "wf_download_store s \<Longrightarrow> r \<in> set s \<Longrightarrow> dl_get_job_by_job_id s (d_job_id r) = Some r"
  unfolding wf_download_store_def dl_get_job_by_job_id_def
  by (intro find_distinct_key) simp_all

lemma dl_claim_next_props:
  assumes d: "wf_download_store s" and c: "dl_claim_next now wid s = (Some j, s')"
  shows "(\<exists>r. dl_get_job_by_job_id s (d_job_id j) = Some r \<and> d_status r = ''queued'' \<and>
              d_available_at r \<le> now) \<and>
         d_status j = ''downloading'' \<and> d_worker_id j = wid \<and>
         dl_get_job_by_job_id s' (d_job_id j) = Some j \<and>
         (\<forall>k. k \<noteq> d_job_id j \<longrightarrow> dl_get_job_by_job_id s' k = dl_get_job_by_job_id s k)"
proof -
  obtain row where row: "row \<in> set s" "dl_claimable now row" and j: "j = dl_claim_row now wid row"
    and s': "s' = sql_update (\<lambda>r. d_id r = d_id row \<and> d_status r = ''queued'') (dl_claim_row now wid) s"
    using dl_claim_next_SomeD [OF d c] by blast
  have id: "d_job_id j = d_job_id row" by (simp add: j dl_claim_row_def)
  have g: "dl_get_job_by_job_id s (d_job_id row) = Some row"
    using d row(1) by (rule dl_find_job_id)
  have q: "d_status row = ''queued''" "d_available_at row \<le> now"
    using row(2) by (simp_all add: dl_claimable_def)
  have 1: "\<exists>r. dl_get_job_by_job_id s (d_job_id j) = Some r \<and> d_status r = ''queued'' \<and>
              d_available_at r \<le> now"
    using g q id by auto
  have 2: "d_status j = ''downloading''" "d_worker_id j = wid" by (simp_all add: j dl_claim_row_def)
  have 3: "dl_get_job_by_job_id s' (d_job_id j) = Some j"
    using g q unfolding id s' j dl_get_job_by_job_id_def
    by (simp add: find_sql_update [where key = d_job_id] dl_claim_row_def)
  have 4: "dl_get_job_by_job_id s' k = dl_get_job_by_job_id s k" if "k \<noteq> d_job_id j" for k
  proof (cases "dl_get_job_by_job_id s k")
    case None
    then show ?thesis unfolding s' dl_get_job_by_job_id_def
      by (simp add: find_sql_update [where key = d_job_id] dl_claim_row_def)
  next
    case (Some r)
    then have r: "d_job_id r = k" "r \<in> set s" by (simp_all add: dl_get_job_SomeD)
    have "d_id r \<noteq> d_id row"
    proof
      assume "d_id r = d_id row"
      then have "r = row"
        using d r(2) row(1) unfolding wf_download_store_def by (auto simp: distinct_map inj_on_def)
      with r(1) that id show False by simp
    qed
    with Some show ?thesis unfolding s' dl_get_job_by_job_id_def
      by (simp add: find_sql_update [where key = d_job_id] dl_claim_row_def)
  qed
  from 1 2 3 4 show ?thesis by blast
qed

lemma dl_claim_next_skips_active:
  assumes d: "wf_download_store s" and c: "dl_claim_next now wid s = (Some j, s')"
    and g: "dl_get_job_by_job_id s k = Some r"
    and st: "d_status r = ''downloading'' \<or> d_status r = ''validating''"
  shows "d_job_id j \<noteq> k"
proof
  assume "d_job_id j = k"
  with dl_claim_next_props [OF d c] g have "d_status r = ''queued''" by auto
  with st show False by auto
qed

section \<open>The concrete stores, evaluated\<close>

lemma demo_store_eq: "demo_store = [demo_job]"
  by code_simp

lemma demo_download_store_eq: "demo_download_store = [demo_download_job]"
  by code_simp

lemma get_demo_job: "get_job demo_store ''j1'' = Some demo_job"
  by code_simp

lemma get_demo_download_job:
  "dl_get_job_by_job_id demo_download_store ''j1'' = Some demo_download_job"
  by code_simp

section \<open>Claims about the two queues\<close>

text \<open>
  C1. In both stores a successful \<open>claim_next\<close> takes its job from \<open>queued\<close> with
  \<open>available_at\<close> due (NULL counts as due in the upload queue), makes exactly that job
  active and leaves every other job as it was. After any sequence of operations, a later
  \<open>claim_next\<close> that returns a job while the first one is still active (processing;
  downloading or validating) returns a different job id.
\<close>

theorem claim_next_exclusive:
  "(distinct (map ident s) \<and> claim_next ts wid s = (Some j, s') \<longrightarrow>
      (\<exists>r. get_job s (ident j) = Some r \<and> status r = ''queued'' \<and>
           (case available_at r of None \<Rightarrow> True | Some a \<Rightarrow> a \<le> ts)) \<and>
      status j = ''processing'' \<and> get_job s' (ident j) = Some j \<and>
      (\<forall>k. k \<noteq> ident j \<longrightarrow> get_job s' k = get_job s k) \<and>
      (\<forall>ops r t2 w2 j2 s3.
          get_job (run_queue ops s') (ident j) = Some r \<and> status r = ''processing'' \<and>
          claim_next t2 w2 (run_queue ops s') = (Some j2, s3) \<longrightarrow> ident j2 \<noteq> ident j)) \<and>
   (wf_download_store ds \<and> dl_claim_next now wid ds = (Some dj, ds') \<longrightarrow>
      (\<exists>r. dl_get_job_by_job_id ds (d_job_id dj) = Some r \<and> d_status r = ''queued'' \<and>
           d_available_at r \<le> now) \<and>
      d_status dj = ''downloading'' \<and> dl_get_job_by_job_id ds' (d_job_id dj) = Some dj \<and>
      (\<forall>k. k \<noteq> d_job_id dj \<longrightarrow> dl_get_job_by_job_id ds' k = dl_get_job_by_job_id ds k) \<and>
      (\<forall>ops r t2 w2 j2 ds3.
          dl_get_job_by_job_id (run_download ops ds') (d_job_id dj) = Some r \<and>
          (d_status r = ''downloading'' \<or> d_status r = ''validating'') \<and>
          dl_claim_next t2 w2 (run_download ops ds') = (Some j2, ds3) \<longrightarrow>
          d_job_id j2 \<noteq> d_job_id dj))"
proof (rule conjI)
  show "distinct (map ident s) \<and> claim_next ts wid s = (Some j, s') \<longrightarrow>
      (\<exists>r. get_job s (ident j) = Some r \<and> status r = ''queued'' \<and>
           (case available_at r of None \<Rightarrow> True | Some a \<Rightarrow> a \<le> ts)) \<and>
      status j = ''processing'' \<and> get_job s' (ident j) = Some j \<and>
      (\<forall>k. k \<noteq> ident j \<longrightarrow> get_job s' k = get_job s k) \<and>
      (\<forall>ops r t2 w2 j2 s3.
          get_job (run_queue ops s') (ident j) = Some r \<and> status r = ''processing'' \<and>
          claim_next t2 w2 (run_queue ops s') = (Some j2, s3) \<longrightarrow> ident j2 \<noteq> ident j)"
  proof (rule impI, elim conjE)
    assume d: "distinct (map ident s)" and c: "claim_next ts wid s = (Some j, s')"
    have "s' = queue_step (ClaimNext ts wid) s" using c by simp
    then have d': "distinct (map ident s')" using d by (simp only: distinct_queue_step)
    have later: "\<forall>ops r t2 w2 j2 s3.
          get_job (run_queue ops s') (ident j) = Some r \<and> status r = ''processing'' \<and>
          claim_next t2 w2 (run_queue ops s') = (Some j2, s3) \<longrightarrow> ident j2 \<noteq> ident j"
    proof (intro allI impI, elim conjE)
      fix ops r t2 w2 j2 s3
      assume "get_job (run_queue ops s') (ident j) = Some r" "status r = ''processing''"
        "claim_next t2 w2 (run_queue ops s') = (Some j2, s3)"
      then show "ident j2 \<noteq> ident j"
        by (rule claim_next_skips_processing [OF distinct_run_queue [OF d'], rotated])
    qed
    note p = claim_next_props [OF d c]
    show "(\<exists>r. get_job s (ident j) = Some r \<and> status r = ''queued'' \<and>
           (case available_at r of None \<Rightarrow> True | Some a \<Rightarrow> a \<le> ts)) \<and>
      status j = ''processing'' \<and> get_job s' (ident j) = Some j \<and>
      (\<forall>k. k \<noteq> ident j \<longrightarrow> get_job s' k = get_job s k) \<and>
      (\<forall>ops r t2 w2 j2 s3.
          get_job (run_queue ops s') (ident j) = Some r \<and> status r = ''processing'' \<and>
          claim_next t2 w2 (run_queue ops s') = (Some j2, s3) \<longrightarrow> ident j2 \<noteq> ident j)"
      by (intro conjI later p [THEN conjunct1] p [THEN conjunct2, THEN conjunct1]
          p [THEN conjunct2, THEN conjunct2, THEN conjunct2, THEN conjunct1]
          p [THEN conjunct2, THEN conjunct2, THEN conjunct2, THEN conjunct2])
  qed
next
  show "wf_download_store ds \<and> dl_claim_next now wid ds = (Some dj, ds') \<longrightarrow>
      (\<exists>r. dl_get_job_by_job_id ds (d_job_id dj) = Some r \<and> d_status r = ''queued'' \<and>
           d_available_at r \<le> now) \<and>
      d_status dj = ''downloading'' \<and> dl_get_job_by_job_id ds' (d_job_id dj) = Some dj \<and>
      (\<forall>k. k \<noteq> d_job_id dj \<longrightarrow> dl_get_job_by_job_id ds' k = dl_get_job_by_job_id ds k) \<and>
      (\<forall>ops r t2 w2 j2 ds3.
          dl_get_job_by_job_id (run_download ops ds') (d_job_id dj) = Some r \<and>
          (d_status r = ''downloading'' \<or> d_status r = ''validating'') \<and>
          dl_claim_next t2 w2 (run_download ops ds') = (Some j2, ds3) \<longrightarrow>
          d_job_id j2 \<noteq> d_job_id dj)"
  proof (rule impI, elim conjE)
    assume d: "wf_download_store ds" and c: "dl_claim_next now wid ds = (Some dj, ds')"
    have "ds' = download_step (DlClaimNext now wid) ds" using c by simp
    then have d': "wf_download_store ds'" using d by (simp only: wf_download_step)
    have later: "\<forall>ops r t2 w2 j2 ds3.
          dl_get_job_by_job_id (run_download ops ds') (d_job_id dj) = Some r \<and>
          (d_status r = ''downloading'' \<or> d_status r = ''validating'') \<and>
          dl_claim_next t2 w2 (run_download ops ds') = (Some j2, ds3) \<longrightarrow>
          d_job_id j2 \<noteq> d_job_id dj"
    proof (intro allI impI, elim conjE)
      fix ops r t2 w2 j2 ds3
      assume "dl_get_job_by_job_id (run_download ops ds') (d_job_id dj) = Some r"
        "d_status r = ''downloading'' \<or> d_status r = ''validating''"
        "dl_claim_next t2 w2 (run_download ops ds') = (Some j2, ds3)"
      then show "d_job_id j2 \<noteq> d_job_id dj"
        by (rule dl_claim_next_skips_active [OF wf_run_download [OF d'], rotated])
    qed
    note p = dl_claim_next_props [OF d c]
    show "(\<exists>r. dl_get_job_by_job_id ds (d_job_id dj) = Some r \<and> d_status r = ''queued'' \<and>
           d_available_at r \<le> now) \<and>
      d_status dj = ''downloading'' \<and> dl_get_job_by_job_id ds' (d_job_id dj) = Some dj \<and>
      (\<forall>k. k \<noteq> d_job_id dj \<longrightarrow> dl_get_job_by_job_id ds' k = dl_get_job_by_job_id ds k) \<and>
      (\<forall>ops r t2 w2 j2 ds3.
          dl_get_job_by_job_id (run_download ops ds') (d_job_id dj) = Some r \<and>
          (d_status r = ''downloading'' \<or> d_status r = ''validating'') \<and>
          dl_claim_next t2 w2 (run_download ops ds') = (Some j2, ds3) \<longrightarrow>
          d_job_id j2 \<noteq> d_job_id dj)"
      by (intro conjI later p [THEN conjunct1] p [THEN conjunct2, THEN conjunct1]
          p [THEN conjunct2, THEN conjunct2, THEN conjunct2, THEN conjunct1]
          p [THEN conjunct2, THEN conjunct2, THEN conjunct2, THEN conjunct2])
  qed
qed


lemma two_jobs_enqueued:
  "run_queue [Enqueue 10 ''j1'' ''obra'' ''/p'' ''{}'', Enqueue 12 ''j2'' ''outra'' ''/q'' ''{}''] []
   = [job1, job2]"
  by (simp add: run_queue_def enqueue_def get_job_def job1_def job2_def)

lemma two_downloads_enqueued:
  "run_download [DlEnqueue 10 ''http://x/1'' ''obra'' ''/p'' 0 0 ''j1'',
                 DlEnqueue 12 ''http://y/1'' ''outra'' ''/q'' 0 0 ''j2''] []
   = [download1, download2]"
  by (simp add: run_download_def dl_enqueue_def dl_get_job_by_job_id_def next_id_def
      download1_def download2_def)

theorem claim_next_exclusive_witness:
  "claim_next 20 ''w1'' [job1, job2]
     = (Some (claim_row 20 ''w1'' job1), [claim_row 20 ''w1'' job1, job2]) \<and>
   fst (claim_next 30 ''w2'' (run_queue [Heartbeat 25 ''j1'' ''w1''] [claim_row 20 ''w1'' job1, job2]))
     = Some (claim_row 30 ''w2'' job2) \<and>
   ident (claim_row 30 ''w2'' job2) \<noteq> ident (claim_row 20 ''w1'' job1) \<and>
   dl_claim_next 20 ''w1'' [download1, download2]
     = (Some (dl_claim_row 20 ''w1'' download1), [dl_claim_row 20 ''w1'' download1, download2]) \<and>
   fst (dl_claim_next 30 ''w2'' (run_download [DlSetStatus 25 ''j1'' ''validating'' ''validating'']
          [dl_claim_row 20 ''w1'' download1, download2]))
     = Some (dl_claim_row 30 ''w2'' download2) \<and>
   d_job_id (dl_claim_row 30 ''w2'' download2) \<noteq> d_job_id (dl_claim_row 20 ''w1'' download1)"
proof -
  let ?j1 = "claim_row 20 ''w1'' job1"
  let ?r = "claim_row 20 ''w1'' job1\<lparr>heartbeat_at := Some 25, updated_at := 25\<rparr>"
  have h1: "distinct (map ident [job1, job2])" by (simp add: job1_def job2_def)
  have c1: "claim_next 20 ''w1'' [job1, job2] = (Some ?j1, [?j1, job2])"
    by (simp add: claim_next_def claimable_def claim_row_def sql_update_def get_job_def
        job1_def job2_def)
  have c2: "run_queue [Heartbeat 25 ''j1'' ''w1''] [?j1, job2] = [?r, job2]"
    by (simp add: run_queue_def heartbeat_def claim_row_def sql_update_def job1_def job2_def)
  have c3: "claim_next 30 ''w2'' [?r, job2] = (Some (claim_row 30 ''w2'' job2), [?r, claim_row 30 ''w2'' job2])"
    by (simp add: claim_next_def claimable_def claim_row_def sql_update_def get_job_def
        job1_def job2_def)
  have h3: "get_job (run_queue [Heartbeat 25 ''j1'' ''w1''] [?j1, job2]) (ident ?j1) = Some ?r"
    unfolding c2 by (simp add: get_job_def claim_row_def job1_def)
  have h4: "status ?r = ''processing''" by (simp add: claim_row_def)
  have h5: "claim_next 30 ''w2'' (run_queue [Heartbeat 25 ''j1'' ''w1''] [?j1, job2])
    = (Some (claim_row 30 ''w2'' job2), [?r, claim_row 30 ''w2'' job2])"
    unfolding c2 by (rule c3)
  let ?k1 = "dl_claim_row 20 ''w1'' download1"
  let ?q = "dl_claim_row 20 ''w1'' download1\<lparr>d_status := ''validating'', d_state := ''validating'',
              d_updated_at := 25\<rparr>"
  have g1: "wf_download_store [download1, download2]"
    by (simp add: wf_download_store_def download1_def download2_def)
  have e1: "dl_claim_next 20 ''w1'' [download1, download2] = (Some ?k1, [?k1, download2])"
    by (simp add: dl_claim_next_def dl_claimable_def dl_claim_row_def sql_update_def
        download1_def download2_def)
  have e2: "run_download [DlSetStatus 25 ''j1'' ''validating'' ''validating''] [?k1, download2]
            = [?q, download2]"
    by (simp add: run_download_def dl_set_status_def dl_claim_row_def sql_update_def
        download1_def download2_def)
  have e3: "dl_claim_next 30 ''w2'' [?q, download2]
            = (Some (dl_claim_row 30 ''w2'' download2), [?q, dl_claim_row 30 ''w2'' download2])"
    by (simp add: dl_claim_next_def dl_claimable_def dl_claim_row_def sql_update_def
        download1_def download2_def)
  have g3: "dl_get_job_by_job_id
              (run_download [DlSetStatus 25 ''j1'' ''validating'' ''validating''] [?k1, download2])
              (d_job_id ?k1) = Some ?q"
    unfolding e2 by (simp add: dl_get_job_by_job_id_def dl_claim_row_def download1_def)
  have g4: "d_status ?q = ''downloading'' \<or> d_status ?q = ''validating''" by simp
  have g5: "dl_claim_next 30 ''w2''
              (run_download [DlSetStatus 25 ''j1'' ''validating'' ''validating''] [?k1, download2])
            = (Some (dl_claim_row 30 ''w2'' download2), [?q, dl_claim_row 30 ''w2'' download2])"
    unfolding e2 by (rule e3)
  note t = claim_next_exclusive [of "[job1, job2]" 20 "''w1''" ?j1 "[?j1, job2]"
      "[download1, download2]" 20 ?k1 "[?k1, download2]"]
  note a = t [THEN conjunct1, THEN mp, OF conjI [OF h1 c1], THEN conjunct2, THEN conjunct2,
      THEN conjunct2, THEN conjunct2, THEN spec, THEN spec, THEN spec, THEN spec, THEN spec,
      THEN spec, THEN mp, OF conjI [OF h3 conjI [OF h4 h5]]]
  note b = t [THEN conjunct2, THEN mp, OF conjI [OF g1 e1], THEN conjunct2, THEN conjunct2,
      THEN conjunct2, THEN conjunct2, THEN spec, THEN spec, THEN spec, THEN spec, THEN spec,
      THEN spec, THEN mp, OF conjI [OF g3 conjI [OF g4 g5]]]
  have f1: "fst (claim_next 30 ''w2'' (run_queue [Heartbeat 25 ''j1'' ''w1''] [?j1, job2]))
     = Some (claim_row 30 ''w2'' job2)"
    unfolding h5 by simp
  have f2: "fst (dl_claim_next 30 ''w2'' (run_download [DlSetStatus 25 ''j1'' ''validating'' ''validating'']
          [?k1, download2])) = Some (dl_claim_row 30 ''w2'' download2)"
    unfolding g5 by simp
  show ?thesis by (intro conjI c1 f1 a e1 f2 b)
qed


text \<open>
  C2, as amended. For a job id already in the upload queue, \<open>enqueue\<close> leaves the
  table as it is when the job is done, and otherwise overwrites name, folder and payload,
  sets the status to queued and clears \<open>available_at\<close>. In the download queue \<open>enqueue\<close>
  is \<^verbatim>\<open>INSERT OR IGNORE\<close>: for a job id already present the table stays as it is,
  whatever the status.
\<close>

theorem enqueue_existing:
  "(get_job s j = Some r \<longrightarrow>
      (status r = ''done'' \<longrightarrow> enqueue ts j obra folder payload s = s) \<and>
      (status r \<noteq> ''done'' \<longrightarrow>
         get_job (enqueue ts j obra folder payload s) j =
           Some (r\<lparr>obra_nome := obra, pasta := folder, payload_json := payload,
                   status := ''queued'', updated_at := ts, available_at := None\<rparr>))) \<and>
   (dl_get_job_by_job_id ds j = Some dr \<longrightarrow>
      dl_enqueue now url nome folder expected_total batch_size j ds = ds)"
proof -
  have a: "get_job s j = Some r \<longrightarrow>
      (status r = ''done'' \<longrightarrow> enqueue ts j obra folder payload s = s) \<and>
      (status r \<noteq> ''done'' \<longrightarrow>
         get_job (enqueue ts j obra folder payload s) j =
           Some (r\<lparr>obra_nome := obra, pasta := folder, payload_json := payload,
                   status := ''queued'', updated_at := ts, available_at := None\<rparr>))"
    using get_job_SomeD [of s j r]
    by (auto simp add: enqueue_def get_job_def find_sql_update [where key = ident])
  have c: "dl_get_job_by_job_id ds j = Some dr \<longrightarrow>
      dl_enqueue now url nome folder expected_total batch_size j ds = ds"
    by (simp add: dl_enqueue_def)
  show ?thesis by (intro conjI a c)
qed

theorem enqueue_existing_witness:
  "get_job (enqueue 20 ''j1'' ''nova'' ''/n'' ''{1}'' demo_store) ''j1'' =
     Some (demo_job\<lparr>obra_nome := ''nova'', pasta := ''/n'', payload_json := ''{1}'',
                     status := ''queued'', updated_at := 20, available_at := None\<rparr>) \<and>
   enqueue 30 ''j1'' ''nova'' ''/n'' ''{1}'' [demo_job\<lparr>status := ''done''\<rparr>]
     = [demo_job\<lparr>status := ''done''\<rparr>] \<and>
   dl_enqueue 20 ''http://x/2'' ''nova'' ''/n'' 7 0 ''j1'' demo_download_store = demo_download_store"
proof -
  have n: "status demo_job \<noteq> ''done''" by (simp add: demo_job_def)
  have g: "get_job [demo_job\<lparr>status := ''done''\<rparr>] ''j1'' = Some (demo_job\<lparr>status := ''done''\<rparr>)"
    by (simp add: get_job_def demo_job_def)
  have d: "status (demo_job\<lparr>status := ''done''\<rparr>) = ''done''" by simp
  note a = enqueue_existing [where s = demo_store and j = "''j1''" and r = demo_job and ts = 20
      and obra = "''nova''" and folder = "''/n''" and payload = "''{1}''"
      and ds = demo_download_store and dr = demo_download_job and now = 20
      and url = "''http://x/2''" and nome = "''nova''" and expected_total = 7 and batch_size = 0]
  note b = enqueue_existing [where s = "[demo_job\<lparr>status := ''done''\<rparr>]" and j = "''j1''"
      and r = "demo_job\<lparr>status := ''done''\<rparr>" and ts = 30 and obra = "''nova''"
      and folder = "''/n''" and payload = "''{1}''", THEN conjunct1, THEN mp,
      OF g, THEN conjunct1, THEN mp, OF d]
  show ?thesis
    by (intro conjI b a [THEN conjunct1, THEN mp, OF get_demo_job, THEN conjunct2, THEN mp, OF n]
        a [THEN conjunct2, THEN mp, OF get_demo_download_job])
qed

text \<open>
  The claim as written fails in the download queue: a job that failed for good stays
  failed, with its old url, when it is enqueued again.
\<close>

theorem enqueue_failed_download_counterexample:
  "map d_status failed_download_store = [''failed''] \<and>
   map d_status (dl_enqueue 20 ''http://x/2'' ''obra'' ''/p'' 0 0 ''j1'' failed_download_store)
     = [''failed''] \<and>
   map d_url (dl_enqueue 20 ''http://x/2'' ''obra'' ''/p'' 0 0 ''j1'' failed_download_store)
     = [''http://x/1'']"
  by (simp add: failed_download_store_def run_download_def dl_enqueue_def dl_claim_next_def
      dl_claimable_def dl_claim_row_def dl_fail_permanently_def dl_get_job_by_job_id_def
      sql_update_def next_id_def)

text \<open>
  C3. A fail transition (\<open>mark_failed\<close> of either store, \<open>fail_permanently\<close>) adds
  exactly one to the stored \<open>tries\<close> of the job; reclaiming stale jobs changes no
  \<open>tries\<close> at all.
\<close>

theorem fail_adds_one_try:
  "(get_job s j = Some r \<longrightarrow>
      map_option tries (get_job (snd (mark_failed ts j err requeue max_tries s)) j)
        = Some (tries r + 1)) \<and>
   (dl_get_job_by_job_id ds j = Some dr \<longrightarrow>
      map_option d_tries (dl_get_job_by_job_id (dl_mark_failed now j err nxt ds) j)
        = Some (d_tries dr + 1) \<and>
      map_option d_tries (dl_get_job_by_job_id (dl_fail_permanently now j err ds) j)
        = Some (d_tries dr + 1)) \<and>
   map tries (snd (reclaim_stale_processing now t s)) = map tries s \<and>
   map d_tries (snd (dl_reclaim_stale_downloading now t ds)) = map d_tries ds"
proof -
  have a: "get_job s j = Some r \<longrightarrow>
      map_option tries (get_job (snd (mark_failed ts j err requeue max_tries s)) j)
        = Some (tries r + 1)"
    by (simp add: get_job_mark_failed)
  have b: "dl_get_job_by_job_id ds j = Some dr \<longrightarrow>
      map_option d_tries (dl_get_job_by_job_id (dl_mark_failed now j err nxt ds) j)
        = Some (d_tries dr + 1) \<and>
      map_option d_tries (dl_get_job_by_job_id (dl_fail_permanently now j err ds) j)
        = Some (d_tries dr + 1)"
    using dl_get_job_SomeD [of ds j dr]
    by (auto simp add: dl_get_job_by_job_id_def dl_mark_failed_def dl_fail_permanently_def
        find_sql_update [where key = d_job_id])
  have d: "map tries (snd (reclaim_stale_processing now t s)) = map tries s"
    by (simp add: reclaim_stale_processing_def Let_def map_field_fold_sql_update reclaim_row_def)
  have e: "map d_tries (snd (dl_reclaim_stale_downloading now t ds)) = map d_tries ds"
    by (simp add: dl_reclaim_stale_downloading_def Let_def map_field_sql_update dl_reclaim_row_def)
  show ?thesis by (intro conjI a b d e)
qed

theorem fail_adds_one_try_witness:
  "map_option tries (get_job (snd (mark_failed 20 ''j1'' ''boom'' True 5 demo_store)) ''j1'')
     = Some (tries demo_job + 1) \<and>
   map_option d_tries (dl_get_job_by_job_id (dl_mark_failed 20 ''j1'' ''boom'' 80 demo_download_store) ''j1'')
     = Some (d_tries demo_download_job + 1) \<and>
   map_option d_tries (dl_get_job_by_job_id (dl_fail_permanently 20 ''j1'' ''boom'' demo_download_store) ''j1'')
     = Some (d_tries demo_download_job + 1)"
proof -
  note t = fail_adds_one_try [where s = demo_store and j = "''j1''" and r = demo_job and ts = 20
      and err = "''boom''" and requeue = True and max_tries = 5 and ds = demo_download_store
      and dr = demo_download_job and now = 20 and nxt = 80 and t = 600]
  show ?thesis
    by (intro conjI t [THEN conjunct1, THEN mp, OF get_demo_job]
        t [THEN conjunct2, THEN conjunct1, THEN mp, OF get_demo_download_job, THEN conjunct1]
        t [THEN conjunct2, THEN conjunct1, THEN mp, OF get_demo_download_job, THEN conjunct2])
qed


text \<open>
  C4, as amended. \<open>backoff(n) = min (60 * 2^(n-1)) 3600\<close> for every \<open>n \<ge> 1\<close>, with
  no jitter. When two consecutive failures of a job both put it back in the queue (requeue
  on and \<open>tries < max_tries\<close>) and the clock has not gone back, the second writes
  \<open>available_at = now + backoff(tries)\<close> with one more try, and that is at least the
  \<open>available_at\<close> the first wrote. Between the two, the store may change in any way that
  keeps the job's \<open>tries\<close>.
\<close>

theorem backoff_formula_and_order:
  "(1 \<le> n \<longrightarrow> compute_backoff_seconds n = min (60 * 2 ^ nat (n - 1)) 3600) \<and>
   (t1 \<le> t2 \<and>
    mark_failed t1 j e1 rq1 m1 s = ((n1, ''queued''), s1) \<and> get_job s1 j = Some r1 \<and>
    get_job s1' j = Some r1' \<and> tries r1' = tries r1 \<and>
    mark_failed t2 j e2 rq2 m2 s1' = ((n2, ''queued''), s2) \<and> get_job s2 j = Some r2
    \<longrightarrow> n2 = n1 + 1 \<and>
        available_at r1 = Some (t1 + compute_backoff_seconds n1) \<and>
        available_at r2 = Some (t2 + compute_backoff_seconds n2) \<and>
        t1 + compute_backoff_seconds n1 \<le> t2 + compute_backoff_seconds n2)"
proof (rule conjI)
  show "1 \<le> n \<longrightarrow> compute_backoff_seconds n = min (60 * 2 ^ nat (n - 1)) 3600"
    by (simp add: compute_backoff_seconds_def max_def)
next
  show "t1 \<le> t2 \<and>
    mark_failed t1 j e1 rq1 m1 s = ((n1, ''queued''), s1) \<and> get_job s1 j = Some r1 \<and>
    get_job s1' j = Some r1' \<and> tries r1' = tries r1 \<and>
    mark_failed t2 j e2 rq2 m2 s1' = ((n2, ''queued''), s2) \<and> get_job s2 j = Some r2
    \<longrightarrow> n2 = n1 + 1 \<and>
        available_at r1 = Some (t1 + compute_backoff_seconds n1) \<and>
        available_at r2 = Some (t2 + compute_backoff_seconds n2) \<and>
        t1 + compute_backoff_seconds n1 \<le> t2 + compute_backoff_seconds n2"
  proof (rule impI, elim conjE)
    assume t: "t1 \<le> t2"
      and f1: "mark_failed t1 j e1 rq1 m1 s = ((n1, ''queued''), s1)" and g1: "get_job s1 j = Some r1"
      and g1': "get_job s1' j = Some r1'" and tr: "tries r1' = tries r1"
      and f2: "mark_failed t2 j e2 rq2 m2 s1' = ((n2, ''queued''), s2)" and g2: "get_job s2 j = Some r2"
    have s1: "s1 = snd (mark_failed t1 j e1 rq1 m1 s)" and s2: "s2 = snd (mark_failed t2 j e2 rq2 m2 s1')"
      using f1 f2 by simp_all
    obtain r where g: "get_job s j = Some r"
      using g1 unfolding s1 mark_failed_def Let_def get_job_def snd_conv
      by (cases "find (\<lambda>r. ident r = j) s") (simp_all add: find_sql_update [where key = ident])
    have n1: "n1 = tries r + 1" and q1: "rq1 \<and> tries r + 1 < m1"
      using f1 g by (auto simp: mark_failed_def Let_def split: if_splits)
    have n2: "n2 = tries r1' + 1" and q2: "rq2 \<and> tries r1' + 1 < m2"
      using f2 g1' by (auto simp: mark_failed_def Let_def split: if_splits)
    have r1: "tries r1 = n1" "available_at r1 = Some (t1 + compute_backoff_seconds n1)"
      using g1 get_job_mark_failed [OF g, of t1 e1 rq1 m1] q1 n1 unfolding s1 by auto
    have r2: "available_at r2 = Some (t2 + compute_backoff_seconds n2)"
      using g2 get_job_mark_failed [OF g1', of t2 e2 rq2 m2] q2 n2 unfolding s2 by auto
    have n: "n2 = n1 + 1" using n2 tr r1 by simp
    have "compute_backoff_seconds n1 \<le> compute_backoff_seconds n2"
      using n by (intro compute_backoff_seconds_mono) simp
    then have le: "t1 + compute_backoff_seconds n1 \<le> t2 + compute_backoff_seconds n2"
      using t by simp
    show "n2 = n1 + 1 \<and>
        available_at r1 = Some (t1 + compute_backoff_seconds n1) \<and>
        available_at r2 = Some (t2 + compute_backoff_seconds n2) \<and>
        t1 + compute_backoff_seconds n1 \<le> t2 + compute_backoff_seconds n2"
      by (intro conjI n r1(2) r2 le)
  qed
qed

theorem backoff_formula_and_order_witness:
  "compute_backoff_seconds 3 = 240 \<and> compute_backoff_seconds 9 = 3600 \<and>
   (100::int) + compute_backoff_seconds 1 = 160 \<and> (300::int) + compute_backoff_seconds 2 = 420 \<and>
   (100::int) + compute_backoff_seconds 1 \<le> 300 + compute_backoff_seconds 2"
proof -
  let ?r1 = "demo_job\<lparr>tries := 1, last_error := Some ''e'', status := ''queued'',
      available_at := Some 160, updated_at := 100, worker_id := None, heartbeat_at := None,
      processing_started_at := None\<rparr>"
  let ?r1' = "claim_row 200 ''w2'' ?r1"
  let ?r2 = "?r1'\<lparr>tries := 2, last_error := Some ''e'', status := ''queued'',
      available_at := Some 420, updated_at := 300, worker_id := None, heartbeat_at := None,
      processing_started_at := None\<rparr>"
  have b1: "compute_backoff_seconds 1 = 60" and b2: "compute_backoff_seconds 2 = 120"
    and b3: "compute_backoff_seconds 3 = 240" and b9: "compute_backoff_seconds 9 = 3600"
    by (simp_all add: compute_backoff_seconds_def)
  have h0: "(100::int) \<le> 300" by simp
  have h1: "mark_failed 100 ''j1'' ''e'' True 5 demo_store = ((1, ''queued''), [?r1])"
    unfolding demo_store_eq
    by (simp add: mark_failed_def Let_def get_job_def sql_update_def demo_job_def b1)
  have h2: "get_job [?r1] ''j1'' = Some ?r1" by (simp add: get_job_def demo_job_def)
  have h3: "get_job [?r1'] ''j1'' = Some ?r1'" by (simp add: get_job_def demo_job_def claim_row_def)
  have h4: "tries ?r1' = tries ?r1" by (simp add: claim_row_def)
  have h5: "mark_failed 300 ''j1'' ''e'' True 5 [?r1'] = ((2, ''queued''), [?r2])"
    by (simp add: mark_failed_def Let_def get_job_def sql_update_def demo_job_def claim_row_def b2)
  have h6: "get_job [?r2] ''j1'' = Some ?r2" by (simp add: get_job_def demo_job_def claim_row_def)
  note t = backoff_formula_and_order [where n = 3 and ?t1.0 = 100 and ?t2.0 = 300 and j = "''j1''"
      and ?e1.0 = "''e''" and ?rq1.0 = True and ?m1.0 = 5 and s = demo_store and ?n1.0 = 1
      and ?s1.0 = "[?r1]" and ?r1.0 = ?r1 and s1' = "[?r1']" and r1' = ?r1'
      and ?e2.0 = "''e''" and ?rq2.0 = True and ?m2.0 = 5 and ?n2.0 = 2 and ?s2.0 = "[?r2]"
      and ?r2.0 = ?r2]
  note u = t [THEN conjunct2, THEN mp,
      OF conjI [OF h0 conjI [OF h1 conjI [OF h2 conjI [OF h3 conjI [OF h4 conjI [OF h5 h6]]]]]]]
  have le: "(100::int) + compute_backoff_seconds 1 \<le> 300 + compute_backoff_seconds 2"
    using u by (elim conjE)
  show ?thesis using le b1 b2 b3 b9 by simp
qed

text \<open>
  The claim as written fails at the ceiling: the failure that reaches \<open>max_tries\<close> makes
  the job failed and writes NULL, so there is no \<open>available_at\<close> after the fifth failure
  to compare with the 520 written by the fourth.
\<close>

theorem backoff_order_counterexample:
  "map available_at four_failures = [Some 520] \<and>
   fst (mark_failed 50 ''j1'' ''e'' True 5 four_failures) = (5, ''failed'') \<and>
   map available_at (snd (mark_failed 50 ''j1'' ''e'' True 5 four_failures)) = [None]"
  by code_simp


text \<open>
  C5, as amended. \<open>reclaim_stale\<close> with timeout \<open>t\<close> at time \<open>now\<close> puts back in the
  queue exactly the jobs that are active and stale, and changes no other job. In the
  upload queue a job is stale when it is processing and its heartbeat is NULL or older
  than \<open>t\<close>; the job gets \<open>available_at = now + 30\<close>, owner, start and heartbeat are
  cleared and a note is appended to \<open>last_error\<close>. In the download queue a job is stale
  when it is downloading or validating and its heartbeat is set (greater than 0) and older
  than \<open>t\<close>; the job gets \<open>available_at = now + 5\<close>, state reclaimed, and owner, start
  and heartbeat are reset. An active download whose heartbeat is 0 is not reclaimed. The
  number returned is the number of stale jobs.
\<close>

theorem reclaim_stale_reverts_exactly:
  "(distinct (map ident s) \<and> get_job s j = Some r \<longrightarrow>
      get_job (snd (reclaim_stale_processing now t s)) j =
        Some (if status r = ''processing'' \<and>
                 (case heartbeat_at r of None \<Rightarrow> True | Some h \<Rightarrow> now - h > t)
              then r\<lparr>status := ''queued'', worker_id := None, processing_started_at := None,
                     heartbeat_at := None, available_at := Some (now + 30), updated_at := now,
                     last_error := Some ((case last_error r of None \<Rightarrow> [] | Some e \<Rightarrow> e)
                                          @ reclaim_note now)\<rparr>
              else r)) \<and>
   fst (reclaim_stale_processing now t s) =
     length (filter (\<lambda>r. status r = ''processing'' \<and>
                 (case heartbeat_at r of None \<Rightarrow> True | Some h \<Rightarrow> now - h > t)) s) \<and>
   (dl_get_job_by_job_id ds j = Some dr \<longrightarrow>
      dl_get_job_by_job_id (snd (dl_reclaim_stale_downloading now t ds)) j =
        Some (if (d_status dr = ''downloading'' \<or> d_status dr = ''validating'') \<and>
                 0 < d_heartbeat_at dr \<and> now - d_heartbeat_at dr > t
              then dr\<lparr>d_status := ''queued'', d_worker_id := [], d_processing_started_at := 0,
                      d_heartbeat_at := 0, d_state := ''reclaimed'', d_available_at := now + 5,
                      d_updated_at := now\<rparr>
              else dr)) \<and>
   fst (dl_reclaim_stale_downloading now t ds) =
     length (filter (\<lambda>r. (d_status r = ''downloading'' \<or> d_status r = ''validating'') \<and>
                 0 < d_heartbeat_at r \<and> now - d_heartbeat_at r > t) ds)"
proof -
  have st: "stale_processing (now - t) = (\<lambda>r. status r = ''processing'' \<and>
                 (case heartbeat_at r of None \<Rightarrow> True | Some h \<Rightarrow> now - h > t))"
    by (rule ext) (auto simp: stale_processing_def split: option.splits)
  have dst: "dl_stale (now - t) = (\<lambda>r. (d_status r = ''downloading'' \<or> d_status r = ''validating'') \<and>
                 0 < d_heartbeat_at r \<and> now - d_heartbeat_at r > t)"
    by (rule ext) (auto simp: dl_stale_def dl_active_def)
  have a: "distinct (map ident s) \<and> get_job s j = Some r \<longrightarrow>
      get_job (snd (reclaim_stale_processing now t s)) j =
        Some (if status r = ''processing'' \<and>
                 (case heartbeat_at r of None \<Rightarrow> True | Some h \<Rightarrow> now - h > t)
              then r\<lparr>status := ''queued'', worker_id := None, processing_started_at := None,
                     heartbeat_at := None, available_at := Some (now + 30), updated_at := now,
                     last_error := Some ((case last_error r of None \<Rightarrow> [] | Some e \<Rightarrow> e)
                                          @ reclaim_note now)\<rparr>
              else r)"
  proof (rule impI, elim conjE)
    assume d: "distinct (map ident s)" and g: "get_job s j = Some r"
    have "get_job (snd (reclaim_stale_processing now t s)) j
          = Some (if stale_processing (now - t) r then reclaim_row now r else r)"
      using g unfolding reclaim_stale_processing_eq [OF d] get_job_def
      by (simp add: find_sql_update [where key = ident] reclaim_row_def)
    then show "get_job (snd (reclaim_stale_processing now t s)) j =
        Some (if status r = ''processing'' \<and>
                 (case heartbeat_at r of None \<Rightarrow> True | Some h \<Rightarrow> now - h > t)
              then r\<lparr>status := ''queued'', worker_id := None, processing_started_at := None,
                     heartbeat_at := None, available_at := Some (now + 30), updated_at := now,
                     last_error := Some ((case last_error r of None \<Rightarrow> [] | Some e \<Rightarrow> e)
                                          @ reclaim_note now)\<rparr>
              else r)"
      unfolding st reclaim_row_def .
  qed
  have b: "fst (reclaim_stale_processing now t s) =
     length (filter (\<lambda>r. status r = ''processing'' \<and>
                 (case heartbeat_at r of None \<Rightarrow> True | Some h \<Rightarrow> now - h > t)) s)"
    unfolding st [symmetric] by (simp add: reclaim_stale_processing_def Let_def)
  have c: "dl_get_job_by_job_id ds j = Some dr \<longrightarrow>
      dl_get_job_by_job_id (snd (dl_reclaim_stale_downloading now t ds)) j =
        Some (if (d_status dr = ''downloading'' \<or> d_status dr = ''validating'') \<and>
                 0 < d_heartbeat_at dr \<and> now - d_heartbeat_at dr > t
              then dr\<lparr>d_status := ''queued'', d_worker_id := [], d_processing_started_at := 0,
                      d_heartbeat_at := 0, d_state := ''reclaimed'', d_available_at := now + 5,
                      d_updated_at := now\<rparr>
              else dr)"
  proof
    assume g: "dl_get_job_by_job_id ds j = Some dr"
    have "dl_get_job_by_job_id (snd (dl_reclaim_stale_downloading now t ds)) j
          = Some (if dl_stale (now - t) dr then dl_reclaim_row now dr else dr)"
      using g unfolding dl_reclaim_stale_downloading_def Let_def snd_conv dl_get_job_by_job_id_def
      by (simp add: find_sql_update [where key = d_job_id] dl_reclaim_row_def)
    then show "dl_get_job_by_job_id (snd (dl_reclaim_stale_downloading now t ds)) j =
        Some (if (d_status dr = ''downloading'' \<or> d_status dr = ''validating'') \<and>
                 0 < d_heartbeat_at dr \<and> now - d_heartbeat_at dr > t
              then dr\<lparr>d_status := ''queued'', d_worker_id := [], d_processing_started_at := 0,
                      d_heartbeat_at := 0, d_state := ''reclaimed'', d_available_at := now + 5,
                      d_updated_at := now\<rparr>
              else dr)"
      unfolding dst dl_reclaim_row_def .
  qed
  have e: "fst (dl_reclaim_stale_downloading now t ds) =
     length (filter (\<lambda>r. (d_status r = ''downloading'' \<or> d_status r = ''validating'') \<and>
                 0 < d_heartbeat_at r \<and> now - d_heartbeat_at r > t) ds)"
    unfolding dst [symmetric] by (simp add: dl_reclaim_stale_downloading_def Let_def)
  show ?thesis by (intro conjI a b c e)
qed

theorem reclaim_stale_reverts_exactly_witness:
  "map_option status (get_job (snd (reclaim_stale_processing 1000 600 demo_store)) ''j1'')
     = Some ''queued'' \<and>
   map_option available_at (get_job (snd (reclaim_stale_processing 1000 600 demo_store)) ''j1'')
     = Some (Some 1030) \<and>
   get_job (snd (reclaim_stale_processing 500 600 demo_store)) ''j1'' = Some demo_job \<and>
   map_option d_status
     (dl_get_job_by_job_id (snd (dl_reclaim_stale_downloading 1000 600 demo_download_store)) ''j1'')
     = Some ''queued'' \<and>
   dl_get_job_by_job_id (snd (dl_reclaim_stale_downloading 500 600 demo_download_store)) ''j1''
     = Some demo_download_job"
proof -
  have d: "distinct (map ident demo_store)" unfolding demo_store_eq by simp
  note old = reclaim_stale_reverts_exactly [where s = demo_store and j = "''j1''" and r = demo_job
      and now = 1000 and t = 600 and ds = demo_download_store and dr = demo_download_job]
  note fresh = reclaim_stale_reverts_exactly [where s = demo_store and j = "''j1''" and r = demo_job
      and now = 500 and t = 600 and ds = demo_download_store and dr = demo_download_job]
  note a = old [THEN conjunct1, THEN mp, OF conjI [OF d get_demo_job]]
  note b = fresh [THEN conjunct1, THEN mp, OF conjI [OF d get_demo_job]]
  note c = old [THEN conjunct2, THEN conjunct2, THEN conjunct1, THEN mp, OF get_demo_download_job]
  note e = fresh [THEN conjunct2, THEN conjunct2, THEN conjunct1, THEN mp, OF get_demo_download_job]
  have 1: "map_option status (get_job (snd (reclaim_stale_processing 1000 600 demo_store)) ''j1'')
     = Some ''queued''"
    unfolding a by (simp add: demo_job_def)
  have 2: "map_option available_at (get_job (snd (reclaim_stale_processing 1000 600 demo_store)) ''j1'')
     = Some (Some 1030)"
    unfolding a by (simp add: demo_job_def)
  have 3: "get_job (snd (reclaim_stale_processing 500 600 demo_store)) ''j1'' = Some demo_job"
    unfolding b by (simp add: demo_job_def)
  have 4: "map_option d_status
     (dl_get_job_by_job_id (snd (dl_reclaim_stale_downloading 1000 600 demo_download_store)) ''j1'')
     = Some ''queued''"
    unfolding c by (simp add: demo_download_job_def)
  have 5: "dl_get_job_by_job_id (snd (dl_reclaim_stale_downloading 500 600 demo_download_store)) ''j1''
     = Some demo_download_job"
    unfolding e by (simp add: demo_download_job_def)
  show ?thesis by (intro conjI 1 2 3 4 5)
qed

text \<open>
  The claim as written fails in the download queue: the job below is validating, its
  heartbeat (0) is older than the timeout, and \<open>reclaim_stale_downloading\<close> leaves it.
\<close>

theorem reclaim_zero_heartbeat_counterexample:
  "map d_status stuck_download_store = [''validating''] \<and>
   map d_heartbeat_at stuck_download_store = [0] \<and>
   (5000::int) - 0 > 600 \<and>
   dl_reclaim_stale_downloading 5000 600 stuck_download_store = (0, stuck_download_store)"
  by code_simp

text \<open>
  C10, as amended. \<open>mark_done\<close> has no precondition on status or owner in either store:
  whatever the job's row is, it becomes done. The upload queue also clears owner, start and
  heartbeat. The download queue stores result and summary and sets the state to completed,
  and leaves owner, start and heartbeat as they were.
\<close>

theorem mark_done_unconditional:
  "(get_job s j = Some r \<longrightarrow>
      get_job (mark_done ts j s) j =
        Some (r\<lparr>status := ''done'', updated_at := ts, worker_id := None,
                heartbeat_at := None, processing_started_at := None\<rparr>)) \<and>
   (dl_get_job_by_job_id ds j = Some dr \<longrightarrow>
      dl_get_job_by_job_id (dl_mark_done now j res summ ds) j =
        Some (dr\<lparr>d_status := ''done'', d_state := ''completed'', d_result_json := res,
                 d_summary_json := summ, d_updated_at := now\<rparr>))"
proof -
  have a: "get_job s j = Some r \<longrightarrow>
      get_job (mark_done ts j s) j =
        Some (r\<lparr>status := ''done'', updated_at := ts, worker_id := None,
                heartbeat_at := None, processing_started_at := None\<rparr>)"
    using get_job_SomeD [of s j r]
    by (auto simp add: mark_done_def get_job_def find_sql_update [where key = ident])
  have b: "dl_get_job_by_job_id ds j = Some dr \<longrightarrow>
      dl_get_job_by_job_id (dl_mark_done now j res summ ds) j =
        Some (dr\<lparr>d_status := ''done'', d_state := ''completed'', d_result_json := res,
                 d_summary_json := summ, d_updated_at := now\<rparr>)"
    using dl_get_job_SomeD [of ds j dr]
    by (auto simp add: dl_mark_done_def dl_get_job_by_job_id_def find_sql_update [where key = d_job_id])
  show ?thesis by (intro conjI a b)
qed

text \<open>
  Worker w1 claims the job, the job is reclaimed and claimed again by w2, and w1 still
  marks it done.
\<close>

theorem mark_done_unconditional_witness:
  "map_option worker_id
     (get_job (run_queue [ReclaimStaleProcessing 1000 600, ClaimNext 1100 ''w2''] demo_store) ''j1'')
     = Some (Some ''w2'') \<and>
   map_option status
     (get_job (mark_done 1200 ''j1''
        (run_queue [ReclaimStaleProcessing 1000 600, ClaimNext 1100 ''w2''] demo_store)) ''j1'')
     = Some ''done'' \<and>
   map_option d_status
     (dl_get_job_by_job_id (dl_mark_done 1200 ''j1'' ''{}'' ''{}'' demo_download_store) ''j1'')
     = Some ''done''"
proof -
  let ?s = "run_queue [ReclaimStaleProcessing 1000 600, ClaimNext 1100 ''w2''] demo_store"
  let ?r = "the (get_job ?s ''j1'')"
  have g: "get_job ?s ''j1'' = Some ?r" by code_simp
  have w: "map_option worker_id (get_job ?s ''j1'') = Some (Some ''w2'')" by code_simp
  note t = mark_done_unconditional [where s = ?s and j = "''j1''" and r = ?r and ts = 1200
      and ds = demo_download_store and dr = demo_download_job and now = 1200
      and res = "''{}''" and summ = "''{}''"]
  note a = t [THEN conjunct1, THEN mp, OF g]
  note b = t [THEN conjunct2, THEN mp, OF get_demo_download_job]
  have 1: "map_option status (get_job (mark_done 1200 ''j1'' ?s) ''j1'') = Some ''done''"
    unfolding a by simp
  have 2: "map_option d_status
     (dl_get_job_by_job_id (dl_mark_done 1200 ''j1'' ''{}'' ''{}'' demo_download_store) ''j1'')
     = Some ''done''"
    unfolding b by simp
  show ?thesis by (intro conjI w 1 2)
qed

text \<open>
  The claim as written fails in the download queue: after \<open>mark_done\<close> the job still
  names its worker and keeps its heartbeat.
\<close>

theorem mark_done_download_owner_counterexample:
  "map d_status (dl_mark_done 20 ''j1'' ''{}'' ''{}'' demo_download_store) = [''done''] \<and>
   map d_worker_id (dl_mark_done 20 ''j1'' ''{}'' ''{}'' demo_download_store) = [''w1''] \<and>
   map d_heartbeat_at (dl_mark_done 20 ''j1'' ''{}'' ''{}'' demo_download_store) = [11]"
  by code_simp

section \<open>Classification of a chapter\<close>

text \<open>
  C8. With \<open>partial_min = 1\<close> and \<open>ok_min = 3\<close> a count \<open>n\<close> is labelled ok when
  \<open>n \<ge> 3\<close>, partial when \<open>1 \<le> n < 3\<close> and broken when \<open>n < 1\<close>; the counts
  0, 1, 2, 3, 5 are labelled broken, partial, partial, ok, ok.
\<close>

theorem classify_thresholds:
  "(n \<ge> 3 \<longrightarrow> classify 3 1 n = ''ok'') \<and>
   (1 \<le> n \<and> n < 3 \<longrightarrow> classify 3 1 n = ''partial'') \<and>
   (n < 1 \<longrightarrow> classify 3 1 n = ''broken'') \<and>
   map (classify 3 1) [0, 1, 2, 3, 5] = [''broken'', ''partial'', ''partial'', ''ok'', ''ok'']"
  by (simp add: classify_def)

theorem classify_thresholds_witness:
  "classify 3 1 4 = ''ok'' \<and> classify 3 1 2 = ''partial'' \<and> classify 3 1 0 = ''broken''"
  using classify_thresholds [of 4] classify_thresholds [of 2] classify_thresholds [of 0]
  by simp

section \<open>The bounded-retry fetch\<close>

lemma tmp_path_neq [simp]: "tmp_path filepath \<noteq> filepath" "filepath \<noteq> tmp_path filepath"
  by (simp_all add: tmp_path_def)



lemma cleanup_dest [simp]: "cleanup filepath b files filepath = files filepath"
  by (simp add: cleanup_def)









section \<open>Normalised URLs\<close>

subsection \<open>Characters\<close>


lemma slash_not_alpha [simp]: "\<not> is_ascii_alpha CHR ''/''" "\<not> is_ascii_alpha CHR ''?''"
  by (simp_all add: is_ascii_alpha_def ascii_lowercase_def ascii_uppercase_def)





subsection \<open>Splitting at a separator\<close>


lemma before_Cons_sep [simp]: "before sep (sep # ys) = []"
  by (simp add: before_def)

lemma before_Nil [simp]: "before sep [] = []"
  by (simp add: before_def)



lemma before_prefix: "\<exists>rest. s = before sep s @ rest"
  unfolding before_def by (metis takeWhile_dropWhile_id)

lemma before_before_prefix:
  "sep \<in> set (before a s) \<Longrightarrow> before sep (before a s) = before sep s"
proof -
  assume m: "sep \<in> set (before a s)"
  obtain rest where s: "s = before a s @ rest" using before_prefix by blast
  have "before sep s = before sep (before a s @ rest)" using s by simp
  also have "\<dots> = before sep (before a s)"
    using m unfolding before_def by (simp add: takeWhile_append1)
  finally show ?thesis by simp
qed



subsection \<open>The scheme\<close>




lemma has_scheme_first: "has_scheme s \<Longrightarrow> s \<noteq> [] \<and> is_ascii_alpha (hd s)"
  by (auto simp: has_scheme_def)



subsection \<open>The components that urlsplit returns\<close>












subsection \<open>The path can be read back from the key\<close>












subsection \<open>The key has no fragment\<close>








subsection \<open>The claim\<close>



section \<open>The upload handoff of a crawl\<close>

lemma first_job_run:
  "fst (run_download_bot demo_config plain_lib first_job [first_turn] (150, True) empty_world)
   = BatchRequeued"
  by code_simp

lemma continuation_run:
  "fst (run_download_bot demo_config plain_lib continuation_job [last_turn] (250, True) after_first_job)
   = Finished"
  by code_simp

text \<open>
  C6. The claim says that the upload job of a work is enqueued at most once over a whole
  crawl with its resumes and its completion path. The code does not do that: the enqueue
  inside the loop is guarded by \<open>upload_enqueued\<close>, the enqueue after the loop is not.
  Here a work of two chapters is crawled with a batch size of one. The first job enqueues
  the upload as \<open>j1\<close>, saves the flag and hands over to the continuation \<open>j1-cont-100\<close>;
  the continuation loads the flag as set, reaches the end of the work, and enqueues the
  upload again under its own id, so the upload queue holds two jobs for the one work.
\<close>

theorem upload_enqueued_again_on_completion:
  "map_option upload_enqueued_key (progress_file after_first_job ''obra'') = Some (Some True) \<and>
   upload_calls after_first_job = [''j1''] \<and>
   map d_job_id (download_queue after_first_job) = [''j1-cont-100''] \<and>
   upload_calls after_continuation = [''j1'', ''j1-cont-100''] \<and>
   map ident (upload_queue after_continuation) = [''j1'', ''j1-cont-100''] \<and>
   map obra_nome (upload_queue after_continuation) = [''obra'', ''obra''] \<and>
   map status (upload_queue after_continuation) = [''queued'', ''queued''] \<and>
   upload_calls (snd (run_download_bot demo_config plain_lib (first_job\<lparr>cj_batch_size := 0\<rparr>)
                        [first_turn, last_turn] (250, True) empty_world)) = [''j1'', ''j1'']"
  by code_simp

end
